theory Spec2Isabelle
  imports Complex_Main
begin

section \<open>Data model of EditableVectorLayer\<close>

text \<open>
  Shared objects (\<open>std::shared_ptr<Point>\<close>, \<open>std::shared_ptr<VectorElement>\<close>,
  \<open>std::shared_ptr<PointStyle>\<close>) are compared by address in the source, so each
  object carries the address it lives at; a null pointer is \<open>None\<close>.
  Coordinates are reals (the source has IEEE doubles; a NaN coordinate, which is unequal
  to itself, has no counterpart here), and the projection arithmetic on positions is a
  parameter of the projection surface. The source's \<open>int\<close> is the unbounded \<open>int\<close>:
  the indices are positions in vectors held in memory, far below \<open>2^31\<close>.
\<close>

datatype MapPos = MapPos real real real

datatype ScreenPos = ScreenPos real real

type_synonym ref = nat

type_synonym PointStyle = ref

datatype Geometry =
    PointGeometry MapPos
  | LineGeometry "MapPos list"
  | PolygonGeometry "MapPos list list"
  | MultiGeometry "Geometry list"

datatype VectorElementDragMode =
    VECTOR_ELEMENT_DRAG_MODE_VERTEX
  | VECTOR_ELEMENT_DRAG_MODE_ELEMENT

datatype VectorElementDragResult =
    VECTOR_ELEMENT_DRAG_RESULT_IGNORE
  | VECTOR_ELEMENT_DRAG_RESULT_STOP
  | VECTOR_ELEMENT_DRAG_RESULT_MODIFY
  | VECTOR_ELEMENT_DRAG_RESULT_DELETE

datatype VectorElementDragPointStyle =
    VECTOR_ELEMENT_DRAG_POINT_STYLE_NORMAL
  | VECTOR_ELEMENT_DRAG_POINT_STYLE_VIRTUAL
  | VECTOR_ELEMENT_DRAG_POINT_STYLE_SELECTED

datatype TouchAction =
    ACTION_POINTER_1_DOWN
  | ACTION_MOVE
  | ACTION_POINTER_1_UP
  | ACTION_OTHER

text \<open>An overlay handle: a \<open>Point\<close> vector element owned by the overlay renderer.\<close>

record Point =
  ptRef :: ref
  ptPos :: MapPos
  ptStyle :: "PointStyle option"
  ptDrawData :: bool

text \<open>A vector element of the data source, as far as the layer reads it.\<close>

record VectorElement =
  getId :: int
  isVisible :: bool
  getGeometry :: Geometry

text \<open>
  The projection surface, reduced to the two computations the layer asks of it:
  the map position half way between two map positions (lines 773-776 and 788-791),
  and the image of a map position under the translation taking \<open>mapPos0\<close> to
  \<open>mapPos1\<close> (lines 488-496).
\<close>

record ProjectionSurface =
  calculateMidPos :: "MapPos \<Rightarrow> MapPos \<Rightarrow> MapPos"
  calculateTranslatedPos :: "MapPos \<Rightarrow> MapPos \<Rightarrow> MapPos \<Rightarrow> MapPos"

record ViewState =
  vsProjectionSurface :: "ProjectionSurface option"

record MapRenderer =
  getProjectionSurface :: "ProjectionSurface option"
  getViewState :: ViewState

record VectorElementDragInfo =
  dragElement :: ref
  dragMode :: VectorElementDragMode
  dragScreenPos :: ScreenPos
  dragMapPos :: MapPos

text \<open>
  The element store: the objects behind the \<open>VectorElement\<close> pointers. The layer only
  reads it; the edit listener's \<open>onElementModify\<close> and \<open>onElementDelete\<close> own every
  commit, so they are store transformers. The other callbacks are modelled by the value
  they return: a listener that calls back into the layer from inside a callback is
  outside the model.
\<close>

type_synonym ElementStore = "ref \<Rightarrow> VectorElement"

record VectorEditEventListener =
  onElementSelect :: "ref \<Rightarrow> bool"
  onSelectDragPointStyle :: "ref \<Rightarrow> VectorElementDragPointStyle \<Rightarrow> PointStyle option"
  onDragStart :: "VectorElementDragInfo \<Rightarrow> VectorElementDragResult"
  onDragMove :: "VectorElementDragInfo \<Rightarrow> VectorElementDragResult"
  onDragEnd :: "VectorElementDragInfo \<Rightarrow> VectorElementDragResult"
  onElementModify :: "ref \<Rightarrow> Geometry option \<Rightarrow> ElementStore \<Rightarrow> ElementStore"
  onElementDelete :: "ref \<Rightarrow> ElementStore \<Rightarrow> ElementStore"

text \<open>What the layer does to its collaborators, in the order it does it.\<close>

datatype Call =
    OnElementDeselected ref
  | OnElementSelect ref
  | OnSelectDragPointStyle ref VectorElementDragPointStyle
  | OnDragStart VectorElementDragInfo
  | OnDragMove VectorElementDragInfo
  | OnDragEnd VectorElementDragInfo
  | OnElementModify ref "Geometry option"
  | OnElementDelete ref
  | Refresh
  | Redraw

text \<open>
  The layer's fields (constructor, lines 46-62), the element store its pointers point
  into, the next free address for \<open>std::make_shared<Point>\<close>, and the log of calls.
\<close>

record Layer =
  selectedVectorElement :: "ref option"
  overlayStyleNormal :: "PointStyle option"
  overlayStyleVirtual :: "PointStyle option"
  overlayStyleSelected :: "PointStyle option"
  overlayPoints :: "Point list"
  overlayDragPoint :: "ref option"
  overlayDragGeometry :: "Geometry option"
  overlayDragGeometryPos :: MapPos
  overlayDragStarted :: bool
  overlayDragMode :: VectorElementDragMode
  vectorEditEventListener :: "VectorEditEventListener option"
  mapRenderer :: "MapRenderer option"
  elementStore :: ElementStore
  heapNext :: ref
  calls :: "Call list"

section \<open>Overlay points: createOverlayPoint and createGeometryOverlayPoints\<close>

definition INT_MAX :: int where
  "INT_MAX = 2147483647"

text \<open>
  \<open>createOverlayPoint\<close> (lines 802-817): an index inside the current overlay sequence
  reuses the object at that index, setting its position and style; any other index
  allocates a new \<open>Point\<close>. Draw data is attached when the point has a style and the
  layer has a map renderer.
\<close>

definition createOverlayPoint ::
  "Layer \<Rightarrow> MapPos \<Rightarrow> bool \<Rightarrow> int \<Rightarrow> Point \<times> Layer" where
  "createOverlayPoint L mapPos virtualPoint index =
     (let (overlayPoint, L') =
        (if 0 \<le> index \<and> index < int (length (overlayPoints L)) then
           (let p = overlayPoints L ! nat index in
            (p\<lparr>ptPos := mapPos,
               ptStyle := (if Some (ptRef p) = overlayDragPoint L then overlayStyleSelected L
                           else if virtualPoint then overlayStyleVirtual L
                           else overlayStyleNormal L)\<rparr>, L))
         else
           (\<lparr>ptRef = heapNext L, ptPos = mapPos,
             ptStyle = (if virtualPoint then overlayStyleVirtual L else overlayStyleNormal L),
             ptDrawData = False\<rparr>,
            L\<lparr>heapNext := Suc (heapNext L)\<rparr>))
      in (if ptStyle overlayPoint \<noteq> None \<and> mapRenderer L \<noteq> None
          then overlayPoint\<lparr>ptDrawData := True\<rparr> else overlayPoint, L'))"

text \<open>\<open>bool closedRing = !ring.empty() && ring.front() == ring.back()\<close>\<close>

definition closedRing :: "MapPos list \<Rightarrow> bool" where
  "closedRing ring = (ring \<noteq> [] \<and> hd ring = last ring)"

text \<open>
  The state threaded through the build: the running \<open>index\<close>, the layer (for the
  allocator) and the output vector.
\<close>

type_synonym Build = "int \<times> Layer \<times> Point list"

definition pushOverlayPoint :: "MapPos \<Rightarrow> bool \<Rightarrow> Build \<Rightarrow> Build" where
  "pushOverlayPoint mapPos virtualPoint st =
     (case st of (index, L, out) \<Rightarrow>
        (case createOverlayPoint L mapPos virtualPoint index of
           (pt, L') \<Rightarrow> (index + 1, L', out @ [pt])))"

text \<open>Body of the loop over a line's positions (lines 769-780).\<close>

definition lineStep :: "ProjectionSurface \<Rightarrow> MapPos list \<Rightarrow> nat \<Rightarrow> Build \<Rightarrow> Build" where
  "lineStep ps mapPoses i st =
     (let mapPos = mapPoses ! i;
          st1 = (if i > 0
                 then pushOverlayPoint (calculateMidPos ps (mapPoses ! (i - 1)) mapPos) True st
                 else st)
      in pushOverlayPoint mapPos False st1)"

text \<open>Body of the loop over a ring's positions (lines 784-793).\<close>

definition ringStep :: "ProjectionSurface \<Rightarrow> MapPos list \<Rightarrow> nat \<Rightarrow> Build \<Rightarrow> Build" where
  "ringStep ps ring i st =
     (let mapPos = ring ! i;
          st1 = pushOverlayPoint mapPos False st;
          nextMapPos = ring ! (if i + 1 < length ring then i + 1 else 0)
      in pushOverlayPoint (calculateMidPos ps mapPos nextMapPos) True st1)"

definition ringOverlayPoints :: "ProjectionSurface \<Rightarrow> MapPos list \<Rightarrow> Build \<Rightarrow> Build" where
  "ringOverlayPoints ps ring st =
     fold (ringStep ps ring) [0 ..< length ring - (if closedRing ring then 1 else 0)] st"

text \<open>
  Lines 753-762: every call first looks up the map renderer and its projection surface
  and returns without output when either is missing.
\<close>

definition findProjectionSurface :: "Layer \<Rightarrow> ProjectionSurface option" where
  "findProjectionSurface L =
     (case mapRenderer L of
        None \<Rightarrow> None
      | Some mr \<Rightarrow> getProjectionSurface mr)"

text \<open>The recursive walk over the geometry (lines 752-800).\<close>

fun createGeometryOverlayPoints :: "Geometry \<Rightarrow> Build \<Rightarrow> Build" where
  "createGeometryOverlayPoints (PointGeometry mapPos) st =
     (case findProjectionSurface (fst (snd st)) of
        None \<Rightarrow> st
      | Some ps \<Rightarrow> pushOverlayPoint mapPos False st)"
| "createGeometryOverlayPoints (LineGeometry mapPoses) st =
     (case findProjectionSurface (fst (snd st)) of
        None \<Rightarrow> st
      | Some ps \<Rightarrow> fold (lineStep ps mapPoses) [0 ..< length mapPoses] st)"
| "createGeometryOverlayPoints (PolygonGeometry rings) st =
     (case findProjectionSurface (fst (snd st)) of
        None \<Rightarrow> st
      | Some ps \<Rightarrow> fold (ringOverlayPoints ps) rings st)"
| "createGeometryOverlayPoints (MultiGeometry geometries) st =
     (case findProjectionSurface (fst (snd st)) of
        None \<Rightarrow> st
      | Some ps \<Rightarrow> fold createGeometryOverlayPoints geometries st)"

section \<open>Vector operations\<close>

text \<open>
  \<open>std::vector\<close> operations at a position outside the vector are undefined behaviour;
  the model returns \<open>None\<close> there, and every function built on them passes it on.
\<close>

definition vector_set :: "'a list \<Rightarrow> int \<Rightarrow> 'a \<Rightarrow> 'a list option" where
  "vector_set v i x =
     (if 0 \<le> i \<and> i < int (length v) then Some (v[nat i := x]) else None)"

definition vector_insert :: "'a list \<Rightarrow> int \<Rightarrow> 'a \<Rightarrow> 'a list option" where
  "vector_insert v i x =
     (if 0 \<le> i \<and> i \<le> int (length v) then Some (take (nat i) v @ x # drop (nat i) v) else None)"

definition vector_erase :: "'a list \<Rightarrow> int \<Rightarrow> 'a list option" where
  "vector_erase v i =
     (if 0 \<le> i \<and> i < int (length v) then Some (take (nat i) v @ drop (Suc (nat i)) v) else None)"

text \<open>\<open>std::find(v.begin(), v.end(), x) - v.begin()\<close>, \<open>None\<close> for \<open>v.end()\<close>.\<close>

fun vector_find :: "('a \<Rightarrow> bool) \<Rightarrow> 'a list \<Rightarrow> nat option" where
  "vector_find P [] = None"
| "vector_find P (x # xs) = (if P x then Some 0 else map_option Suc (vector_find P xs))"

text \<open>\<open>ring.back() = ring.front()\<close>\<close>

definition setBackToFront :: "'a list \<Rightarrow> 'a list" where
  "setBackToFront ring = ring[length ring - 1 := hd ring]"

section \<open>updateGeometryPoint\<close>

text \<open>
  Lines 585-586 and 605-606: two new handles are put into \<open>_overlayPoints\<close>, a
  virtual one after the dragged handle and a normal one in front of it.
\<close>

definition insertOverlayPoints :: "Layer \<Rightarrow> int \<Rightarrow> MapPos \<Rightarrow> Layer option" where
  "insertOverlayPoints L index mapPos =
     (case createOverlayPoint L mapPos True INT_MAX of
        (p1, L1) \<Rightarrow>
          (case vector_insert (overlayPoints L1) (index + 1) p1 of
             None \<Rightarrow> None
           | Some ov1 \<Rightarrow>
               (case createOverlayPoint (L1\<lparr>overlayPoints := ov1\<rparr>) mapPos False INT_MAX of
                  (p2, L2) \<Rightarrow>
                    (case vector_insert (overlayPoints L2) (index - 0) p2 of
                       None \<Rightarrow> None
                     | Some ov2 \<Rightarrow> Some (L2\<lparr>overlayPoints := ov2\<rparr>)))))"

definition ringPoints :: "MapPos list \<Rightarrow> int" where
  "ringPoints ring = int (length ring * 2) - (if closedRing ring then 2 else 0)"

text \<open>
  The loop over the rings of a polygon (lines 592-611). It returns the rings, the
  \<open>offset\<close> and the \<open>points\<close> it ends with; the first ring whose range holds the
  index is edited and ends the loop.
\<close>

fun updateGeometryPoint_rings ::
  "MapPos list list \<Rightarrow> int \<Rightarrow> int \<Rightarrow> int \<Rightarrow> MapPos \<Rightarrow> Layer \<Rightarrow>
   (MapPos list list \<times> int \<times> int \<times> Layer) option" where
  "updateGeometryPoint_rings [] offset points index mapPos L = Some ([], offset, points, L)"
| "updateGeometryPoint_rings (ring # rest) offset points index mapPos L =
     (let closed = closedRing ring;
          offset' = offset + points;
          points' = ringPoints ring;
          localIndex = index - offset'
      in if localIndex < points' then
           (if localIndex mod 2 = 0 then
              (case vector_set ring (localIndex div 2) mapPos of
                 None \<Rightarrow> None
               | Some ring1 \<Rightarrow>
                   Some ((if closed \<and> localIndex = 0 then setBackToFront ring1 else ring1) # rest,
                         offset', points', L))
            else
              (case vector_insert ring (localIndex div 2 + 1) mapPos of
                 None \<Rightarrow> None
               | Some ring1 \<Rightarrow>
                   (case insertOverlayPoints L index mapPos of
                      None \<Rightarrow> None
                    | Some L' \<Rightarrow> Some (ring1 # rest, offset', points', L'))))
         else
           (case updateGeometryPoint_rings rest offset' points' index mapPos L of
              None \<Rightarrow> None
            | Some (rest', offset'', points'', L') \<Rightarrow> Some (ring # rest', offset'', points'', L')))"

text \<open>
  \<open>updateGeometryPoint\<close> (lines 565-625). The result is the new geometry (a pointer,
  so possibly null), the advanced \<open>offset\<close> and the layer with its overlay points.
\<close>

fun updateGeometryPoint ::
    "Geometry \<Rightarrow> int \<Rightarrow> int \<Rightarrow> MapPos \<Rightarrow> Layer \<Rightarrow> (Geometry option \<times> int \<times> Layer) option"
  and updateGeometryPoint_children ::
    "Geometry list \<Rightarrow> int \<Rightarrow> int \<Rightarrow> MapPos \<Rightarrow> Layer \<Rightarrow> (Geometry list \<times> int \<times> Layer) option"
  where
  "updateGeometryPoint (PointGeometry pos) offset index mapPos L =
     (if index < offset then Some (Some (PointGeometry pos), offset, L)
      else
        (let points = 1
         in Some (Some (if index - offset < points then PointGeometry mapPos else PointGeometry pos),
                  offset + points, L)))"
| "updateGeometryPoint (LineGeometry mapPoses) offset index mapPos L =
     (if index < offset then Some (Some (LineGeometry mapPoses), offset, L)
      else
        (let points = int (length mapPoses * 2) - 1;
             localIndex = index - offset
         in if localIndex < points then
              (if localIndex mod 2 = 0 then
                 (case vector_set mapPoses (localIndex div 2) mapPos of
                    None \<Rightarrow> None
                  | Some mapPoses' \<Rightarrow> Some (Some (LineGeometry mapPoses'), offset + points, L))
               else
                 (case vector_insert mapPoses (localIndex div 2 + 1) mapPos of
                    None \<Rightarrow> None
                  | Some mapPoses' \<Rightarrow>
                      (case insertOverlayPoints L index mapPos of
                         None \<Rightarrow> None
                       | Some L' \<Rightarrow> Some (Some (LineGeometry mapPoses'), offset + points, L'))))
            else Some (Some (LineGeometry mapPoses), offset + points, L)))"
| "updateGeometryPoint (PolygonGeometry rings) offset index mapPos L =
     (if index < offset then Some (Some (PolygonGeometry rings), offset, L)
      else
        (case updateGeometryPoint_rings rings offset 0 index mapPos L of
           None \<Rightarrow> None
         | Some (rings', offset', points, L') \<Rightarrow>
             Some (Some (PolygonGeometry rings'), offset' + points, L')))"
| "updateGeometryPoint (MultiGeometry geometries) offset index mapPos L =
     (if index < offset then Some (Some (MultiGeometry geometries), offset, L)
      else
        (case updateGeometryPoint_children geometries offset index mapPos L of
           None \<Rightarrow> None
         | Some (geometries', offset', L') \<Rightarrow>
             Some (Some (MultiGeometry geometries'), offset' + 0, L')))"
| "updateGeometryPoint_children [] offset index mapPos L = Some ([], offset, L)"
| "updateGeometryPoint_children (g # gs) offset index mapPos L =
     (case updateGeometryPoint g offset index mapPos L of
        None \<Rightarrow> None
      | Some (geom, offset', L') \<Rightarrow>
          (case updateGeometryPoint_children gs offset' index mapPos L' of
             None \<Rightarrow> None
           | Some (geometries, offset'', L'') \<Rightarrow>
               Some ((case geom of None \<Rightarrow> geometries | Some g' \<Rightarrow> g' # geometries),
                     offset'', L'')))"

section \<open>removeGeometryPoint\<close>

text \<open>
  The loop over the rings of a polygon (lines 688-715); \<open>before\<close> holds the rings
  already passed, so that \<open>before @ ring # rest\<close> is the whole vector \<open>rings\<close>
  that \<open>std::find\<close> searches.
\<close>

fun removeGeometryPoint_rings ::
  "MapPos list list \<Rightarrow> MapPos list list \<Rightarrow> int \<Rightarrow> int \<Rightarrow> int \<Rightarrow> Layer \<Rightarrow>
   (Geometry option \<times> int \<times> int \<times> Layer) option" where
  "removeGeometryPoint_rings before [] offset points index L =
     Some (Some (PolygonGeometry before), offset, points, L)"
| "removeGeometryPoint_rings before (ring # rest) offset points index L =
     (let closed = closedRing ring;
          offset' = offset + points;
          points' = ringPoints ring;
          localIndex = index - offset';
          rings = before @ ring # rest
      in if localIndex < points' then
           (if localIndex mod 2 = 0 then
              (if points' > 6 then
                 (case vector_erase ring (localIndex div 2) of
                    None \<Rightarrow> None
                  | Some ring1 \<Rightarrow>
                      (case vector_erase (overlayPoints L) (index + 1) of
                         None \<Rightarrow> None
                       | Some ov1 \<Rightarrow>
                           (case vector_erase ov1 index of
                              None \<Rightarrow> None
                            | Some ov2 \<Rightarrow>
                                Some (Some (PolygonGeometry
                                        (before @
                                         (if closed \<and> localIndex = 0 then setBackToFront ring1 else ring1)
                                         # rest)),
                                      offset', points', L\<lparr>overlayPoints := ov2\<rparr>))))
               else
                 (let n = (case vector_find (\<lambda>r. r = ring) rings of
                             None \<Rightarrow> length rings
                           | Some k \<Rightarrow> k)
                  in if n > 0 then
                       (case vector_erase rings (int n) of
                          None \<Rightarrow> None
                        | Some rings' \<Rightarrow> Some (Some (PolygonGeometry rings'), offset', points', L))
                     else Some (None, offset', points', L)))
            else Some (Some (PolygonGeometry rings), offset', points', L))
         else removeGeometryPoint_rings (before @ [ring]) rest offset' points' index L)"

text \<open>\<open>removeGeometryPoint\<close> (lines 659-733).\<close>

fun removeGeometryPoint ::
    "Geometry \<Rightarrow> int \<Rightarrow> int \<Rightarrow> Layer \<Rightarrow> (Geometry option \<times> int \<times> Layer) option"
  and removeGeometryPoint_children ::
    "Geometry list \<Rightarrow> int \<Rightarrow> int \<Rightarrow> Layer \<Rightarrow> (Geometry list \<times> int \<times> Layer) option"
  where
  "removeGeometryPoint (PointGeometry pos) offset index L =
     (if index < offset then Some (Some (PointGeometry pos), offset, L)
      else
        (let points = 1
         in Some (if index - offset < points then None else Some (PointGeometry pos),
                  offset + points, L)))"
| "removeGeometryPoint (LineGeometry mapPoses) offset index L =
     (if index < offset then Some (Some (LineGeometry mapPoses), offset, L)
      else
        (let points = int (length mapPoses * 2) - 1;
             localIndex = index - offset
         in if localIndex < points then
              (if localIndex mod 2 = 0 then
                 (if length mapPoses > 2 then
                    (case vector_erase mapPoses (localIndex div 2) of
                       None \<Rightarrow> None
                     | Some mapPoses' \<Rightarrow>
                         (case vector_erase (overlayPoints L) index of
                            None \<Rightarrow> None
                          | Some ov1 \<Rightarrow>
                              (case vector_erase ov1 (if localIndex > 0 then index - 1 else index) of
                                 None \<Rightarrow> None
                               | Some ov2 \<Rightarrow>
                                   Some (Some (LineGeometry mapPoses'), offset + points,
                                         L\<lparr>overlayPoints := ov2\<rparr>))))
                  else Some (None, offset + points, L))
               else Some (Some (LineGeometry mapPoses), offset + points, L))
            else Some (Some (LineGeometry mapPoses), offset + points, L)))"
| "removeGeometryPoint (PolygonGeometry rings) offset index L =
     (if index < offset then Some (Some (PolygonGeometry rings), offset, L)
      else
        (case removeGeometryPoint_rings [] rings offset 0 index L of
           None \<Rightarrow> None
         | Some (geometry, offset', points, L') \<Rightarrow> Some (geometry, offset' + points, L')))"
| "removeGeometryPoint (MultiGeometry geometries) offset index L =
     (if index < offset then Some (Some (MultiGeometry geometries), offset, L)
      else
        (case removeGeometryPoint_children geometries offset index L of
           None \<Rightarrow> None
         | Some (geometries', offset', L') \<Rightarrow>
             Some (if geometries' \<noteq> [] then Some (MultiGeometry geometries') else None,
                   offset' + 0, L')))"
| "removeGeometryPoint_children [] offset index L = Some ([], offset, L)"
| "removeGeometryPoint_children (g # gs) offset index L =
     (case removeGeometryPoint g offset index L of
        None \<Rightarrow> None
      | Some (geom, offset', L') \<Rightarrow>
          (case removeGeometryPoint_children gs offset' index L' of
             None \<Rightarrow> None
           | Some (geometries, offset'', L'') \<Rightarrow>
               Some ((case geom of None \<Rightarrow> geometries | Some g' \<Rightarrow> g' # geometries),
                     offset'', L'')))"

section \<open>Element-level operations\<close>

definition refresh :: "Layer \<Rightarrow> Layer" where
  "refresh L = L\<lparr>calls := calls L @ [Refresh]\<rparr>"

definition redraw :: "Layer \<Rightarrow> Layer" where
  "redraw L = L\<lparr>calls := calls L @ [Redraw]\<rparr>"

text \<open>
  \<open>if (vectorEditEventListener) vectorEditEventListener->onElementModify(element, geometry)\<close>
  and its sibling for \<open>onElementDelete\<close>.
\<close>

definition callOnElementModify :: "Layer \<Rightarrow> ref \<Rightarrow> Geometry option \<Rightarrow> Layer" where
  "callOnElementModify L element geometry =
     (case vectorEditEventListener L of
        None \<Rightarrow> L
      | Some listener \<Rightarrow>
          L\<lparr>elementStore := onElementModify listener element geometry (elementStore L),
            calls := calls L @ [OnElementModify element geometry]\<rparr>)"

definition callOnElementDelete :: "Layer \<Rightarrow> ref \<Rightarrow> Layer" where
  "callOnElementDelete L element =
     (case vectorEditEventListener L of
        None \<Rightarrow> L
      | Some listener \<Rightarrow>
          L\<lparr>elementStore := onElementDelete listener element (elementStore L),
            calls := calls L @ [OnElementDelete element]\<rparr>)"

text \<open>\<open>syncElementOverlayPoints\<close> (lines 735-750); the overlay renderer is not modelled.\<close>

definition syncElementOverlayPoints :: "Layer \<Rightarrow> ref option \<Rightarrow> Layer" where
  "syncElementOverlayPoints L element =
     (case (case element of
              None \<Rightarrow> (0, L, [])
            | Some e \<Rightarrow>
                if isVisible (elementStore L e)
                then createGeometryOverlayPoints (getGeometry (elementStore L e)) (0, L, [])
                else (0, L, [])) of
        (index, L', overlayPoints') \<Rightarrow> L'\<lparr>overlayPoints := overlayPoints'\<rparr>)"

text \<open>\<open>std::find(_overlayPoints.begin(), _overlayPoints.end(), dragPoint)\<close>: the handles
  in the vector are objects, so a null \<open>dragPoint\<close> is never found.\<close>

definition findOverlayPoint :: "Point list \<Rightarrow> ref option \<Rightarrow> nat option" where
  "findOverlayPoint points dragPoint =
     (case dragPoint of
        None \<Rightarrow> None
      | Some r \<Rightarrow> vector_find (\<lambda>p. ptRef p = r) points)"

text \<open>
  The common end of \<open>updateElementPoint\<close> and \<open>removeElementPoint\<close> (lines 548-562 and
  642-656): a geometry is reported as modified, a null geometry as the element's
  deletion, and the overlay points are rebuilt.
\<close>

definition commitElementGeometry :: "Layer \<Rightarrow> ref \<Rightarrow> Geometry option \<Rightarrow> Layer" where
  "commitElementGeometry L element geometry =
     (case geometry of
        Some g \<Rightarrow> redraw (syncElementOverlayPoints (callOnElementModify L element (Some g)) (Some element))
      | None \<Rightarrow> redraw (syncElementOverlayPoints (callOnElementDelete L element) None))"

text \<open>\<open>updateElementPoint\<close> (lines 533-563)\<close>

definition updateElementPoint :: "Layer \<Rightarrow> ref option \<Rightarrow> ref option \<Rightarrow> MapPos \<Rightarrow> Layer option" where
  "updateElementPoint L element dragPoint mapPos =
     (case element of
        None \<Rightarrow> Some L
      | Some e \<Rightarrow>
          (case findOverlayPoint (overlayPoints L) dragPoint of
             None \<Rightarrow> Some L
           | Some index \<Rightarrow>
               (case updateGeometryPoint (getGeometry (elementStore L e)) 0 (int index) mapPos L of
                  None \<Rightarrow> None
                | Some (geometry, offset, L') \<Rightarrow> Some (commitElementGeometry L' e geometry))))"

text \<open>\<open>removeElementPoint\<close> (lines 627-657)\<close>

definition removeElementPoint :: "Layer \<Rightarrow> ref option \<Rightarrow> ref option \<Rightarrow> Layer option" where
  "removeElementPoint L element dragPoint =
     (case element of
        None \<Rightarrow> Some L
      | Some e \<Rightarrow>
          (case findOverlayPoint (overlayPoints L) dragPoint of
             None \<Rightarrow> Some L
           | Some index \<Rightarrow>
               (case removeGeometryPoint (getGeometry (elementStore L e)) 0 (int index) L of
                  None \<Rightarrow> None
                | Some (geometry, offset, L') \<Rightarrow> Some (commitElementGeometry L' e geometry))))"

text \<open>\<open>updateGeometryPoints\<close> (lines 482-519): every position is translated.\<close>

fun translateGeometry :: "(MapPos \<Rightarrow> MapPos) \<Rightarrow> Geometry \<Rightarrow> Geometry" where
  "translateGeometry updateMapPos (PointGeometry pos) = PointGeometry (updateMapPos pos)"
| "translateGeometry updateMapPos (LineGeometry mapPoses) = LineGeometry (map updateMapPos mapPoses)"
| "translateGeometry updateMapPos (PolygonGeometry rings) =
     PolygonGeometry (map (map updateMapPos) rings)"
| "translateGeometry updateMapPos (MultiGeometry geometries) =
     MultiGeometry (map (translateGeometry updateMapPos) geometries)"

definition updateGeometryPoints ::
  "Geometry option \<Rightarrow> ViewState \<Rightarrow> MapPos \<Rightarrow> MapPos \<Rightarrow> Geometry option" where
  "updateGeometryPoints geometry viewState mapPos0 mapPos1 =
     (case vsProjectionSurface viewState of
        None \<Rightarrow> geometry
      | Some ps \<Rightarrow> map_option (translateGeometry (calculateTranslatedPos ps mapPos0 mapPos1)) geometry)"

text \<open>\<open>updateElementGeometry\<close> (lines 463-480)\<close>

definition updateElementGeometry ::
  "Layer \<Rightarrow> ref option \<Rightarrow> Geometry option \<Rightarrow> ViewState \<Rightarrow> MapPos \<Rightarrow> MapPos \<Rightarrow> Layer" where
  "updateElementGeometry L element geometry viewState mapPos0 mapPos1 =
     (case element of
        None \<Rightarrow> L
      | Some e \<Rightarrow>
          (let geometry' = (if mapPos0 \<noteq> mapPos1
                            then updateGeometryPoints geometry viewState mapPos0 mapPos1
                            else geometry)
           in redraw (syncElementOverlayPoints (callOnElementModify L e geometry') (Some e))))"

text \<open>\<open>removeElement\<close> (lines 521-531); its callers pass an element, never null.\<close>

definition removeElement :: "Layer \<Rightarrow> ref \<Rightarrow> Layer" where
  "removeElement L element = redraw (syncElementOverlayPoints (callOnElementDelete L element) None)"

section \<open>Selection\<close>

text \<open>\<open>getSelectedVectorElement\<close> (lines 67-70)\<close>

definition getSelectedVectorElement :: "Layer \<Rightarrow> ref option" where
  "getSelectedVectorElement L = selectedVectorElement L"

text \<open>Lines 81-90: the selection and all overlay, drag and style state are reset.\<close>

definition clearSelection :: "Layer \<Rightarrow> Layer" where
  "clearSelection L =
     L\<lparr>selectedVectorElement := None,
       overlayPoints := [],
       overlayDragPoint := None,
       overlayDragGeometry := None,
       overlayDragStarted := False,
       overlayStyleNormal := None,
       overlayStyleVirtual := None,
       overlayStyleSelected := None\<rparr>"

text \<open>\<open>setSelectedVectorElement\<close> (lines 72-115)\<close>

definition setSelectedVectorElement :: "Layer \<Rightarrow> ref option \<Rightarrow> Layer" where
  "setSelectedVectorElement L element =
     (let oldSelectedVectorElement = selectedVectorElement L
      in if element = oldSelectedVectorElement then L
         else
           (let L1 = clearSelection L
            in (case vectorEditEventListener L1 of
                  None \<Rightarrow> refresh L1
                | Some listener \<Rightarrow>
                    (let L2 = (case oldSelectedVectorElement of
                                 None \<Rightarrow> L1
                               | Some old \<Rightarrow> L1\<lparr>calls := calls L1 @ [OnElementDeselected old]\<rparr>)
                     in (case element of
                           None \<Rightarrow> refresh L2
                         | Some e \<Rightarrow>
                             (let L3 = L2\<lparr>calls := calls L2 @ [OnElementSelect e]\<rparr>
                              in if onElementSelect listener e then
                                   refresh
                                     (L3\<lparr>calls := calls L3 @
                                          [OnSelectDragPointStyle e VECTOR_ELEMENT_DRAG_POINT_STYLE_NORMAL,
                                           OnSelectDragPointStyle e VECTOR_ELEMENT_DRAG_POINT_STYLE_VIRTUAL,
                                           OnSelectDragPointStyle e VECTOR_ELEMENT_DRAG_POINT_STYLE_SELECTED],
                                         selectedVectorElement := element,
                                         overlayStyleNormal :=
                                           onSelectDragPointStyle listener e VECTOR_ELEMENT_DRAG_POINT_STYLE_NORMAL,
                                         overlayStyleVirtual :=
                                           onSelectDragPointStyle listener e VECTOR_ELEMENT_DRAG_POINT_STYLE_VIRTUAL,
                                         overlayStyleSelected :=
                                           onSelectDragPointStyle listener e VECTOR_ELEMENT_DRAG_POINT_STYLE_SELECTED\<rparr>)
                                 else refresh L3))))))"

text \<open>\<open>IsSameElement\<close> (lines 819-830)\<close>

definition IsSameElement :: "ElementStore \<Rightarrow> ref option \<Rightarrow> ref option \<Rightarrow> bool" where
  "IsSameElement store element1 element2 =
     (case (element1, element2) of
        (Some e1, Some e2) \<Rightarrow>
          if e1 = e2 then True
          else if getId (store e1) = - 1 then False
          else getId (store e1) = getId (store e2)
      | _ \<Rightarrow> element1 = element2)"

text \<open>
  \<open>addRendererElement\<close> (lines 167-171): whether the element is handed on to the
  renderer of the base layer.
\<close>

definition addRendererElement :: "Layer \<Rightarrow> ref \<Rightarrow> bool" where
  "addRendererElement L element =
     (\<not> IsSameElement (elementStore L) (Some element) (selectedVectorElement L))"

section \<open>The touch handler\<close>

text \<open>
  One call of \<open>onTouchEvent\<close>. What the collaborators compute for it is part of the
  event: whether the world position of \<open>screenPos1\<close> is NaN (line 296), the map
  position \<open>mapPos1\<close> (line 299), and the elements the ray hits in the overlay
  renderer (line 317) and in the layer (line 344), nearest first.
\<close>

record TouchEvent =
  action :: TouchAction
  screenPos1 :: ScreenPos
  screenPos2 :: ScreenPos
  worldPos1IsNaN :: bool
  mapPos1 :: MapPos
  overlayHits :: "ref list"
  elementHits :: "ref list"

text \<open>The listener's verdict, \<open>IGNORE\<close> without a listener (lines 319-323 and siblings).\<close>

definition callOnDragStart :: "Layer \<Rightarrow> VectorElementDragInfo \<Rightarrow> VectorElementDragResult \<times> Layer" where
  "callOnDragStart L dragInfo =
     (case vectorEditEventListener L of
        None \<Rightarrow> (VECTOR_ELEMENT_DRAG_RESULT_IGNORE, L)
      | Some listener \<Rightarrow> (onDragStart listener dragInfo, L\<lparr>calls := calls L @ [OnDragStart dragInfo]\<rparr>))"

definition callOnDragMove :: "Layer \<Rightarrow> VectorElementDragInfo \<Rightarrow> VectorElementDragResult \<times> Layer" where
  "callOnDragMove L dragInfo =
     (case vectorEditEventListener L of
        None \<Rightarrow> (VECTOR_ELEMENT_DRAG_RESULT_IGNORE, L)
      | Some listener \<Rightarrow> (onDragMove listener dragInfo, L\<lparr>calls := calls L @ [OnDragMove dragInfo]\<rparr>))"

definition callOnDragEnd :: "Layer \<Rightarrow> VectorElementDragInfo \<Rightarrow> VectorElementDragResult \<times> Layer" where
  "callOnDragEnd L dragInfo =
     (case vectorEditEventListener L of
        None \<Rightarrow> (VECTOR_ELEMENT_DRAG_RESULT_IGNORE, L)
      | Some listener \<Rightarrow> (onDragEnd listener dragInfo, L\<lparr>calls := calls L @ [OnDragEnd dragInfo]\<rparr>))"

definition makeDragInfo :: "ref \<Rightarrow> VectorElementDragMode \<Rightarrow> TouchEvent \<Rightarrow> VectorElementDragInfo" where
  "makeDragInfo element mode ev =
     \<lparr>dragElement = element, dragMode = mode, dragScreenPos = screenPos1 ev, dragMapPos = mapPos1 ev\<rparr>"

text \<open>
  Pointer down, second half (lines 343-373): the loop over the elements the ray hits
  in the layer. Running out of results leaves the \<open>switch\<close> and returns false.
\<close>

fun touchDownElement ::
  "Layer \<Rightarrow> TouchEvent \<Rightarrow> ViewState \<Rightarrow> ref \<Rightarrow> ref list \<Rightarrow> (bool \<times> Layer) option" where
  "touchDownElement L ev viewState selectedElement [] = Some (False, L)"
| "touchDownElement L ev viewState selectedElement (result # results) =
     (if result \<noteq> selectedElement then touchDownElement L ev viewState selectedElement results
      else
        (case callOnDragStart L (makeDragInfo selectedElement VECTOR_ELEMENT_DRAG_MODE_ELEMENT ev) of
           (dragResult, L1) \<Rightarrow>
             (let L2 = L1\<lparr>overlayDragMode := VECTOR_ELEMENT_DRAG_MODE_ELEMENT,
                          overlayDragGeometry := Some (getGeometry (elementStore L1 selectedElement)),
                          overlayDragGeometryPos := mapPos1 ev\<rparr>
              in (case dragResult of
                    VECTOR_ELEMENT_DRAG_RESULT_IGNORE \<Rightarrow>
                      touchDownElement (L2\<lparr>overlayDragGeometry := None\<rparr>) ev viewState
                        selectedElement results
                  | VECTOR_ELEMENT_DRAG_RESULT_STOP \<Rightarrow>
                      Some (False, L2\<lparr>overlayDragGeometry := None\<rparr>)
                  | VECTOR_ELEMENT_DRAG_RESULT_MODIFY \<Rightarrow>
                      Some (True,
                            updateElementGeometry (L2\<lparr>overlayDragStarted := True\<rparr>)
                              (Some selectedElement)
                              (Some (getGeometry (elementStore L2 selectedElement)))
                              viewState (MapPos 0 0 0) (MapPos 0 0 0))
                  | VECTOR_ELEMENT_DRAG_RESULT_DELETE \<Rightarrow>
                      Some (True, removeElement L2 selectedElement)))))"

text \<open>
  Pointer down (lines 310-375). \<open>selectedPoint\<close> is the drag point read at line 306,
  before the hit test.
\<close>

definition touchDown ::
  "Layer \<Rightarrow> TouchEvent \<Rightarrow> ViewState \<Rightarrow> ref \<Rightarrow> ref option \<Rightarrow> (bool \<times> Layer) option" where
  "touchDown L ev viewState selectedElement selectedPoint =
     (case overlayHits ev of
        [] \<Rightarrow> touchDownElement L ev viewState selectedElement (elementHits ev)
      | front # others \<Rightarrow>
          (case callOnDragStart L (makeDragInfo selectedElement VECTOR_ELEMENT_DRAG_MODE_VERTEX ev) of
             (dragResult, L1) \<Rightarrow>
               (let L2 = L1\<lparr>overlayDragMode := VECTOR_ELEMENT_DRAG_MODE_VERTEX,
                            overlayDragPoint := Some front\<rparr>
                in (case dragResult of
                      VECTOR_ELEMENT_DRAG_RESULT_IGNORE \<Rightarrow>
                        touchDownElement (L2\<lparr>overlayDragPoint := None\<rparr>) ev viewState
                          selectedElement (elementHits ev)
                    | VECTOR_ELEMENT_DRAG_RESULT_STOP \<Rightarrow>
                        Some (True, L2\<lparr>overlayDragPoint := None\<rparr>)
                    | VECTOR_ELEMENT_DRAG_RESULT_MODIFY \<Rightarrow>
                        map_option (Pair True)
                          (updateElementPoint (L2\<lparr>overlayDragStarted := True\<rparr>)
                             (Some selectedElement) selectedPoint (mapPos1 ev))
                    | VECTOR_ELEMENT_DRAG_RESULT_DELETE \<Rightarrow>
                        map_option (Pair True)
                          (removeElementPoint L2 (Some selectedElement) selectedPoint)))))"

definition resetDrag :: "Layer \<Rightarrow> Layer" where
  "resetDrag L = L\<lparr>overlayDragPoint := None, overlayDragGeometry := None, overlayDragStarted := False\<rparr>"

text \<open>Pointer move (lines 376-416)\<close>

definition touchMove ::
  "Layer \<Rightarrow> TouchEvent \<Rightarrow> ViewState \<Rightarrow> ref \<Rightarrow> ref option \<Rightarrow> Geometry option \<Rightarrow>
   (bool \<times> Layer) option" where
  "touchMove L ev viewState selectedElement selectedPoint selectedGeometry =
     (if \<not> overlayDragStarted L then Some (False, L)
      else
        (case callOnDragMove L (makeDragInfo selectedElement (overlayDragMode L) ev) of
           (dragResult, L1) \<Rightarrow>
             (case dragResult of
                VECTOR_ELEMENT_DRAG_RESULT_IGNORE \<Rightarrow> Some (False, L1)
              | VECTOR_ELEMENT_DRAG_RESULT_STOP \<Rightarrow> Some (True, refresh (resetDrag L1))
              | VECTOR_ELEMENT_DRAG_RESULT_MODIFY \<Rightarrow>
                  (if overlayDragMode L1 = VECTOR_ELEMENT_DRAG_MODE_VERTEX
                   then map_option (Pair True)
                          (updateElementPoint L1 (Some selectedElement) selectedPoint (mapPos1 ev))
                   else Some (True,
                              updateElementGeometry L1 (Some selectedElement) selectedGeometry
                                viewState (overlayDragGeometryPos L1) (mapPos1 ev)))
              | VECTOR_ELEMENT_DRAG_RESULT_DELETE \<Rightarrow>
                  (let L2 = resetDrag L1
                   in if overlayDragMode L2 = VECTOR_ELEMENT_DRAG_MODE_VERTEX
                      then map_option (Pair True)
                             (removeElementPoint L2 (Some selectedElement) selectedPoint)
                      else Some (True, removeElement L2 selectedElement)))))"

text \<open>Pointer up (lines 417-458)\<close>

definition touchUp ::
  "Layer \<Rightarrow> TouchEvent \<Rightarrow> ViewState \<Rightarrow> ref \<Rightarrow> ref option \<Rightarrow> Geometry option \<Rightarrow>
   (bool \<times> Layer) option" where
  "touchUp L ev viewState selectedElement selectedPoint selectedGeometry =
     (if \<not> overlayDragStarted L then Some (False, L)
      else
        (case callOnDragEnd L (makeDragInfo selectedElement (overlayDragMode L) ev) of
           (dragResult, L1) \<Rightarrow>
             (let L2 = resetDrag L1
              in (case dragResult of
                    VECTOR_ELEMENT_DRAG_RESULT_IGNORE \<Rightarrow> Some (False, refresh L2)
                  | VECTOR_ELEMENT_DRAG_RESULT_STOP \<Rightarrow> Some (True, refresh L2)
                  | VECTOR_ELEMENT_DRAG_RESULT_MODIFY \<Rightarrow>
                      (if overlayDragMode L2 = VECTOR_ELEMENT_DRAG_MODE_VERTEX
                       then map_option (\<lambda>L3. (True, refresh L3))
                              (updateElementPoint L2 (Some selectedElement) selectedPoint (mapPos1 ev))
                       else Some (True,
                                  refresh
                                    (updateElementGeometry L2 (Some selectedElement) selectedGeometry
                                       viewState (overlayDragGeometryPos L2) (mapPos1 ev))))
                  | VECTOR_ELEMENT_DRAG_RESULT_DELETE \<Rightarrow>
                      (if overlayDragMode L2 = VECTOR_ELEMENT_DRAG_MODE_VERTEX
                       then map_option (\<lambda>L3. (True, refresh L3))
                              (removeElementPoint L2 (Some selectedElement) selectedPoint)
                       else Some (True, refresh (removeElement L2 selectedElement)))))))"

text \<open>
  \<open>TouchHandlerListener::onTouchEvent\<close> (lines 277-461), for a listener whose layer is
  alive. The result is the value returned (the event was consumed) and the layer.
\<close>

definition onTouchEvent :: "Layer \<Rightarrow> TouchEvent \<Rightarrow> (bool \<times> Layer) option" where
  "onTouchEvent L ev =
     (case mapRenderer L of
        None \<Rightarrow> Some (False, L)
      | Some mr \<Rightarrow>
          (case getProjectionSurface mr of
             None \<Rightarrow> Some (False, L)
           | Some projectionSurface \<Rightarrow>
               (if worldPos1IsNaN ev then Some (False, L)
                else
                  (case getSelectedVectorElement L of
                     None \<Rightarrow> Some (False, L)
                   | Some selectedElement \<Rightarrow>
                       (let viewState = getViewState mr;
                            selectedPoint = overlayDragPoint L;
                            selectedGeometry = overlayDragGeometry L
                        in (case action ev of
                              ACTION_POINTER_1_DOWN \<Rightarrow>
                                touchDown L ev viewState selectedElement selectedPoint
                            | ACTION_MOVE \<Rightarrow>
                                touchMove L ev viewState selectedElement selectedPoint selectedGeometry
                            | ACTION_POINTER_1_UP \<Rightarrow>
                                touchUp L ev viewState selectedElement selectedPoint selectedGeometry
                            | ACTION_OTHER \<Rightarrow> Some (False, L)))))))"

text \<open>Lines 278-281: a listener whose layer is gone returns false.\<close>

definition TouchHandlerListener_onTouchEvent ::
  "Layer option \<Rightarrow> TouchEvent \<Rightarrow> (bool \<times> Layer option) option" where
  "TouchHandlerListener_onTouchEvent layer ev =
     (case layer of
        None \<Rightarrow> Some (False, None)
      | Some L \<Rightarrow> map_option (\<lambda>(consumed, L'). (consumed, Some L')) (onTouchEvent L ev))"

section \<open>Specification-side definitions and example states\<close>

text \<open>
  The slot counts of the specification (section 3): 1 for a point, \<open>2N - 1\<close> for a
  line of \<open>N\<close> vertices, for a polygon the sum over its rings of twice the ring's
  length, less 2 for a closed ring, and for a collection the sum over its children.
\<close>

definition ringSlotCount :: "MapPos list \<Rightarrow> int" where
  "ringSlotCount ring = 2 * int (length ring) - (if ring \<noteq> [] \<and> hd ring = last ring then 2 else 0)"

fun slotCount :: "Geometry \<Rightarrow> int" where
  "slotCount (PointGeometry pos) = 1"
| "slotCount (LineGeometry mapPoses) = 2 * int (length mapPoses) - 1"
| "slotCount (PolygonGeometry rings) = sum_list (map ringSlotCount rings)"
| "slotCount (MultiGeometry geometries) = sum_list (map slotCount geometries)"

text \<open>Every line of the tree has a vertex (the specification asks for two).\<close>

fun linesNonEmpty :: "Geometry \<Rightarrow> bool" where
  "linesNonEmpty (PointGeometry pos) = True"
| "linesNonEmpty (LineGeometry mapPoses) = (mapPoses \<noteq> [])"
| "linesNonEmpty (PolygonGeometry rings) = True"
| "linesNonEmpty (MultiGeometry geometries) = list_all linesNonEmpty geometries"

text \<open>A projection surface for the examples: the plane.\<close>

definition planeMidPos :: "MapPos \<Rightarrow> MapPos \<Rightarrow> MapPos" where
  "planeMidPos a b =
     (case (a, b) of
        (MapPos x0 y0 z0, MapPos x1 y1 z1) \<Rightarrow> MapPos ((x0 + x1) / 2) ((y0 + y1) / 2) ((z0 + z1) / 2))"

definition planeTranslatedPos :: "MapPos \<Rightarrow> MapPos \<Rightarrow> MapPos \<Rightarrow> MapPos" where
  "planeTranslatedPos a b p =
     (case (a, b, p) of
        (MapPos x0 y0 z0, MapPos x1 y1 z1, MapPos x y z) \<Rightarrow>
          MapPos (x + x1 - x0) (y + y1 - y0) (z + z1 - z0))"

definition planeSurface :: ProjectionSurface where
  "planeSurface = \<lparr>calculateMidPos = planeMidPos, calculateTranslatedPos = planeTranslatedPos\<rparr>"

definition planeRenderer :: MapRenderer where
  "planeRenderer =
     \<lparr>getProjectionSurface = Some planeSurface,
      getViewState = \<lparr>vsProjectionSurface = Some planeSurface\<rparr>\<rparr>"

text \<open>
  The layer as the constructor leaves it (lines 46-62): nothing selected, no listener,
  no map renderer. The store holds one line element at every address.
\<close>

definition lineElement :: VectorElement where
  "lineElement =
     \<lparr>getId = - 1, isVisible = True,
      getGeometry = LineGeometry [MapPos 0 0 0, MapPos 2 0 0, MapPos 2 2 0]\<rparr>"

definition newLayer :: Layer where
  "newLayer =
     \<lparr>selectedVectorElement = None,
      overlayStyleNormal = None,
      overlayStyleVirtual = None,
      overlayStyleSelected = None,
      overlayPoints = [],
      overlayDragPoint = None,
      overlayDragGeometry = None,
      overlayDragGeometryPos = MapPos 0 0 0,
      overlayDragStarted = False,
      overlayDragMode = VECTOR_ELEMENT_DRAG_MODE_VERTEX,
      vectorEditEventListener = None,
      mapRenderer = None,
      elementStore = (\<lambda>r. lineElement),
      heapNext = 0,
      calls = []\<rparr>"

text \<open>The same layer once \<open>setComponents\<close> has given it a map renderer.\<close>

definition attachedLayer :: Layer where
  "attachedLayer = newLayer\<lparr>mapRenderer := Some planeRenderer\<rparr>"

text \<open>A collection of a point, a line of three vertices and a closed square.\<close>

definition exampleGeometry :: Geometry where
  "exampleGeometry =
     MultiGeometry
       [PointGeometry (MapPos 5 5 0),
        LineGeometry [MapPos 0 0 0, MapPos 2 0 0, MapPos 2 2 0],
        PolygonGeometry [[MapPos 0 0 0, MapPos 0 1 0, MapPos 1 1 0, MapPos 1 0 0, MapPos 0 0 0]]]"

text \<open>
  A step of the build changes nothing of the layer but the allocator, and adds \<open>n\<close>
  handles to the output.
\<close>

definition heapOnly :: "Layer \<Rightarrow> Layer \<Rightarrow> bool" where
  "heapOnly L L' = (\<exists>h. L' = L\<lparr>heapNext := h\<rparr>)"

definition grows :: "Build \<Rightarrow> Build \<Rightarrow> int \<Rightarrow> bool" where
  "grows st st' n =
     (heapOnly (fst (snd st)) (fst (snd st')) \<and>
      int (length (snd (snd st'))) = int (length (snd (snd st))) + n)"

text \<open>
  A listener for the examples: it approves every selection, hands out the styles 100,
  101 and 102, answers every drag callback with the given verdict and commits every
  modification to the store.
\<close>

definition exampleListener :: "VectorElementDragResult \<Rightarrow> VectorEditEventListener" where
  "exampleListener verdict =
     \<lparr>onElementSelect = (\<lambda>e. True),
      onSelectDragPointStyle =
        (\<lambda>e kind. Some (case kind of
                           VECTOR_ELEMENT_DRAG_POINT_STYLE_NORMAL \<Rightarrow> 100
                         | VECTOR_ELEMENT_DRAG_POINT_STYLE_VIRTUAL \<Rightarrow> 101
                         | VECTOR_ELEMENT_DRAG_POINT_STYLE_SELECTED \<Rightarrow> 102)),
      onDragStart = (\<lambda>info. verdict),
      onDragMove = (\<lambda>info. verdict),
      onDragEnd = (\<lambda>info. verdict),
      onElementModify =
        (\<lambda>e g store. case g of
                        None \<Rightarrow> store
                      | Some g' \<Rightarrow> store(e := (store e)\<lparr>getGeometry := g'\<rparr>)),
      onElementDelete = (\<lambda>e store. store)\<rparr>"

text \<open>The five handles of the line element: three vertices and two midpoints.\<close>

definition lineHandles :: "Point list" where
  "lineHandles =
     [\<lparr>ptRef = 0, ptPos = MapPos 0 0 0, ptStyle = Some 100, ptDrawData = True\<rparr>,
      \<lparr>ptRef = 1, ptPos = MapPos 1 0 0, ptStyle = Some 101, ptDrawData = True\<rparr>,
      \<lparr>ptRef = 2, ptPos = MapPos 2 0 0, ptStyle = Some 100, ptDrawData = True\<rparr>,
      \<lparr>ptRef = 3, ptPos = MapPos 2 1 0, ptStyle = Some 101, ptDrawData = True\<rparr>,
      \<lparr>ptRef = 4, ptPos = MapPos 2 2 0, ptStyle = Some 100, ptDrawData = True\<rparr>]"

text \<open>
  The attached layer with the example listener, after element 1 has been selected and
  its handles built; the log of calls starts empty.
\<close>

definition editingLayer :: "VectorElementDragResult \<Rightarrow> Layer" where
  "editingLayer verdict =
     attachedLayer
       \<lparr>vectorEditEventListener := Some (exampleListener verdict),
        selectedVectorElement := Some 1,
        overlayStyleNormal := Some 100,
        overlayStyleVirtual := Some 101,
        overlayStyleSelected := Some 102,
        overlayPoints := lineHandles,
        heapNext := 5\<rparr>"

text \<open>
  A layer without a listener on which every field of the selection has a value other
  than the constructor's: element 1 selected, its handles and styles set, and a drag
  of the whole element under way.
\<close>

definition staleLayer :: Layer where
  "staleLayer =
     attachedLayer
       \<lparr>selectedVectorElement := Some 1,
        overlayStyleNormal := Some 100,
        overlayStyleVirtual := Some 101,
        overlayStyleSelected := Some 102,
        overlayPoints := lineHandles,
        overlayDragPoint := Some 0,
        overlayDragGeometry := Some (LineGeometry [MapPos 0 0 0, MapPos 2 0 0, MapPos 2 2 0]),
        overlayDragGeometryPos := MapPos 1 1 0,
        overlayDragStarted := True,
        overlayDragMode := VECTOR_ELEMENT_DRAG_MODE_ELEMENT\<rparr>"

text \<open>
  The selection, overlay, drag and style fields all hold the values the constructor
  gives them (lines 49-59).
\<close>

definition selectionStateReset :: "Layer \<Rightarrow> bool" where
  "selectionStateReset L =
     (selectedVectorElement L = None \<and>
      overlayStyleNormal L = None \<and>
      overlayStyleVirtual L = None \<and>
      overlayStyleSelected L = None \<and>
      overlayPoints L = [] \<and>
      overlayDragPoint L = None \<and>
      overlayDragGeometry L = None \<and>
      overlayDragGeometryPos L = MapPos 0 0 0 \<and>
      \<not> overlayDragStarted L \<and>
      overlayDragMode L = VECTOR_ELEMENT_DRAG_MODE_VERTEX)"

text \<open>
  A handle allocated by \<open>createOverlayPoint\<close> at address \<open>r\<close>: flagged virtual it
  gets the virtual style, flagged real the normal style.
\<close>

definition newOverlayPoint :: "Layer \<Rightarrow> ref \<Rightarrow> MapPos \<Rightarrow> bool \<Rightarrow> Point" where
  "newOverlayPoint L r mapPos virtualPoint =
     (let style = (if virtualPoint then overlayStyleVirtual L else overlayStyleNormal L)
      in \<lparr>ptRef = r, ptPos = mapPos, ptStyle = style,
          ptDrawData = (style \<noteq> None \<and> mapRenderer L \<noteq> None)\<rparr>)"

text \<open>
  The layer with two new handles spliced into its overlay sequence around entry \<open>i\<close>:
  one flagged real in front of it and one flagged virtual behind it.
\<close>

definition withInsertedHandles :: "Layer \<Rightarrow> nat \<Rightarrow> MapPos \<Rightarrow> Layer" where
  "withInsertedHandles L i mapPos =
     L\<lparr>overlayPoints :=
         take i (overlayPoints L) @
         [newOverlayPoint L (Suc (heapNext L)) mapPos False,
          overlayPoints L ! i,
          newOverlayPoint L (heapNext L) mapPos True] @
         drop (Suc i) (overlayPoints L),
       heapNext := Suc (Suc (heapNext L))\<rparr>"

text \<open>
  Ring by ring, a closed ring of the first polygon is a closed ring in the second; and
  the second polygon is the first with one ring dropped.
\<close>

definition keepsClosed :: "MapPos list list \<Rightarrow> MapPos list list \<Rightarrow> bool" where
  "keepsClosed rings rings' = list_all2 (\<lambda>ring ring'. closedRing ring \<longrightarrow> closedRing ring') rings rings'"

definition ringDropped :: "MapPos list list \<Rightarrow> MapPos list list \<Rightarrow> bool" where
  "ringDropped rings rings' =
     list_ex (\<lambda>n. rings' = take n rings @ drop (Suc n) rings) [0 ..< length rings]"

text \<open>
  A ring without its vertex \<open>k\<close>; when the first vertex of a closed ring goes, the
  closing position is set to the new first one.
\<close>

definition ringWithout :: "MapPos list \<Rightarrow> nat \<Rightarrow> MapPos list" where
  "ringWithout ring k =
     (if closedRing ring \<and> k = 0
      then setBackToFront (take k ring @ drop (Suc k) ring)
      else take k ring @ drop (Suc k) ring)"

text \<open>Rings for the examples: two open triangles and a closed square.\<close>

definition triangleRing :: "MapPos list" where
  "triangleRing = [MapPos 0 0 0, MapPos 4 0 0, MapPos 0 4 0]"

definition holeRing :: "MapPos list" where
  "holeRing = [MapPos 1 1 0, MapPos 2 1 0, MapPos 1 2 0]"

definition squareRing :: "MapPos list" where
  "squareRing = [MapPos 0 0 0, MapPos 0 1 0, MapPos 1 1 0, MapPos 1 0 0, MapPos 0 0 0]"

text \<open>A step of the build that changes nothing of the layer but the allocator.\<close>

definition bstep :: "Build \<Rightarrow> Build \<Rightarrow> bool" where
  "bstep st st' = heapOnly (fst (snd st)) (fst (snd st'))"

text \<open>The drag mode and reference position, the listener and the calls so far are kept.\<close>

definition continues :: "Layer \<Rightarrow> Layer \<Rightarrow> bool" where
  "continues L L' =
     (overlayDragMode L' = overlayDragMode L \<and>
      overlayDragGeometryPos L' = overlayDragGeometryPos L \<and>
      vectorEditEventListener L' = vectorEditEventListener L \<and>
      (\<exists>cs. calls L' = calls L @ cs))"

text \<open>
  The layer \<open>L'\<close> after a pointer-down on \<open>L\<close> that was resolved as a candidate drag
  of the whole element \<open>e\<close>: the drag mode is \<open>ELEMENT\<close>, the reference position is
  the event's map position, and the listener, if there is one, was asked
  \<open>onDragStart\<close> in that mode as the first call of the event.
\<close>

definition elementCandidate :: "Layer \<Rightarrow> TouchEvent \<Rightarrow> ref \<Rightarrow> Layer \<Rightarrow> bool" where
  "elementCandidate L ev e L' =
     (overlayDragMode L' = VECTOR_ELEMENT_DRAG_MODE_ELEMENT \<and>
      overlayDragGeometryPos L' = mapPos1 ev \<and>
      (case vectorEditEventListener L of
         None \<Rightarrow> True
       | Some listener \<Rightarrow>
           take (Suc (length (calls L))) (calls L') =
             calls L @ [OnDragStart (makeDragInfo e VECTOR_ELEMENT_DRAG_MODE_ELEMENT ev)]))"

text \<open>
  Pointer-down events: on the body of element 1 with no handle under the pointer, on
  the handle at address 1 (the midpoint of the first segment), a move that follows it,
  and a pointer-down on the body of element 2.
\<close>

definition bodyDownEvent :: TouchEvent where
  "bodyDownEvent =
     \<lparr>action = ACTION_POINTER_1_DOWN,
      screenPos1 = ScreenPos 10 10,
      screenPos2 = ScreenPos 0 0,
      worldPos1IsNaN = False,
      mapPos1 = MapPos 1 1 0,
      overlayHits = [],
      elementHits = [1]\<rparr>"

definition handleDownEvent :: TouchEvent where
  "handleDownEvent = bodyDownEvent\<lparr>overlayHits := [1]\<rparr>"

definition handleMoveEvent :: TouchEvent where
  "handleMoveEvent = bodyDownEvent\<lparr>action := ACTION_MOVE, elementHits := []\<rparr>"

definition twinDownEvent :: TouchEvent where
  "twinDownEvent = bodyDownEvent\<lparr>elementHits := [2]\<rparr>"

text \<open>The pointer-down on the handle at address 1 when the projection to the world fails.\<close>

definition nanHandleDownEvent :: TouchEvent where
  "nanHandleDownEvent = handleDownEvent\<lparr>worldPos1IsNaN := True\<rparr>"

text \<open>The editing layer after the pointer-down on the handle at address 1.\<close>

definition afterHandleDown :: Layer where
  "afterHandleDown =
     (editingLayer VECTOR_ELEMENT_DRAG_RESULT_MODIFY)
       \<lparr>calls := [OnDragStart (makeDragInfo 1 VECTOR_ELEMENT_DRAG_MODE_VERTEX handleDownEvent)],
        overlayDragPoint := Some 1,
        overlayDragStarted := True\<rparr>"

text \<open>The editing layer over a store in which every element has the id 7.\<close>

definition twinLayer :: Layer where
  "twinLayer = (editingLayer VECTOR_ELEMENT_DRAG_RESULT_MODIFY)\<lparr>elementStore := (\<lambda>r. lineElement\<lparr>getId := 7\<rparr>)\<rparr>"

section \<open>The length of the overlay sequence\<close>

lemma heapOnly_refl: "heapOnly L L"
proof -
  have "L = L\<lparr>heapNext := heapNext L\<rparr>" by simp
  then show ?thesis unfolding heapOnly_def by blast
qed

lemma heapOnly_trans: "heapOnly L L' \<Longrightarrow> heapOnly L' L'' \<Longrightarrow> heapOnly L L''"
  unfolding heapOnly_def by auto

lemma createOverlayPoint_heapOnly: "heapOnly L (snd (createOverlayPoint L mapPos v index))"
proof (cases "0 \<le> index \<and> index < int (length (overlayPoints L))")
  case True
  then have "snd (createOverlayPoint L mapPos v index) = L"
    by (simp add: createOverlayPoint_def Let_def)
  then show ?thesis by (simp add: heapOnly_refl)
next
  case False
  then have "snd (createOverlayPoint L mapPos v index) = L\<lparr>heapNext := Suc (heapNext L)\<rparr>"
    by (simp add: createOverlayPoint_def Let_def)
  then show ?thesis unfolding heapOnly_def by blast
qed

lemma grows_push: "grows st (pushOverlayPoint mapPos v st) 1"
proof (cases st)
  case (fields index L out)
  obtain pt L' where c: "createOverlayPoint L mapPos v index = (pt, L')"
    by (cases "createOverlayPoint L mapPos v index")
  have "heapOnly L L'"
    using createOverlayPoint_heapOnly [of L mapPos v index] c by simp
  then show ?thesis
    by (simp add: grows_def pushOverlayPoint_def fields c)
qed

lemma grows_refl: "grows st st 0"
  by (simp add: grows_def heapOnly_refl)

lemma grows_trans: "grows a b m \<Longrightarrow> grows b c n \<Longrightarrow> grows a c (m + n)"
  using heapOnly_trans by (auto simp: grows_def)

lemma grows_fold:
  assumes "\<And>x st. x \<in> set xs \<Longrightarrow> grows st (f x st) (w x)"
  shows "grows st (fold f xs st) (sum_list (map w xs))"
  using assms
proof (induction xs arbitrary: st)
  case Nil
  show ?case by (simp add: grows_refl)
next
  case (Cons x xs)
  have "grows st (f x st) (w x)"
    using Cons.prems by simp
  moreover have "grows (f x st) (fold f xs (f x st)) (sum_list (map w xs))"
    using Cons.IH Cons.prems by simp
  ultimately have "grows st (fold f xs (f x st)) (w x + sum_list (map w xs))"
    by (rule grows_trans)
  then show ?case by simp
qed

lemma grows_lineStep: "grows st (lineStep ps mapPoses i st) (if i > 0 then 2 else 1)"
proof (cases "i > 0")
  case True
  then show ?thesis
    using grows_trans [OF grows_push grows_push, of st]
    by (simp add: lineStep_def Let_def)
next
  case False
  then show ?thesis
    using grows_push [of st] by (simp add: lineStep_def Let_def)
qed

lemma grows_ringStep: "grows st (ringStep ps ring i st) 2"
  using grows_trans [OF grows_push grows_push, of st]
  by (simp add: ringStep_def Let_def)

lemma sum_line_slots:
  "n > 0 \<Longrightarrow> sum_list (map (\<lambda>i. if i > 0 then 2 else (1::int)) [0..<n]) = 2 * int n - 1"
  by (induction n) auto

lemma grows_ringOverlayPoints: "grows st (ringOverlayPoints ps ring st) (ringSlotCount ring)"
proof -
  let ?n = "length ring - (if closedRing ring then 1 else 0)"
  have "grows st (ringOverlayPoints ps ring st) (sum_list (map (\<lambda>i. 2) [0 ..< ?n]))"
    unfolding ringOverlayPoints_def by (rule grows_fold) (rule grows_ringStep)
  moreover have "sum_list (map (\<lambda>i. (2::int)) [0 ..< ?n]) = ringSlotCount ring"
    by (cases ring) (auto simp: ringSlotCount_def closedRing_def sum_list_triv)
  ultimately show ?thesis by simp
qed

lemma findProjectionSurface_grows:
  "grows st st' n \<Longrightarrow> findProjectionSurface (fst (snd st')) = findProjectionSurface (fst (snd st))"
  by (auto simp: grows_def heapOnly_def findProjectionSurface_def)

lemma grows_createGeometryOverlayPoints:
  "findProjectionSurface (fst (snd st)) = Some ps \<Longrightarrow> linesNonEmpty geometry \<Longrightarrow>
   grows st (createGeometryOverlayPoints geometry st) (slotCount geometry)"
proof (induction geometry arbitrary: st)
  case (PointGeometry pos)
  then show ?case by (simp add: grows_push)
next
  case (LineGeometry mapPoses)
  have "grows st (fold (lineStep ps mapPoses) [0..<length mapPoses] st)
          (sum_list (map (\<lambda>i. if i > 0 then 2 else (1::int)) [0..<length mapPoses]))"
    by (rule grows_fold) (rule grows_lineStep)
  then show ?case
    using LineGeometry.prems by (simp add: sum_line_slots)
next
  case (PolygonGeometry rings)
  have "grows st (fold (ringOverlayPoints ps) rings st) (sum_list (map ringSlotCount rings))"
    by (rule grows_fold) (rule grows_ringOverlayPoints)
  then show ?case
    using PolygonGeometry.prems by simp
next
  case (MultiGeometry geometries)
  have "findProjectionSurface (fst (snd st)) = Some ps \<Longrightarrow> list_all linesNonEmpty geometries \<Longrightarrow>
        grows st (fold createGeometryOverlayPoints geometries st)
          (sum_list (map slotCount geometries))" for st
    using MultiGeometry.IH
  proof (induction geometries arbitrary: st)
    case Nil
    show ?case by (simp add: grows_refl)
  next
    case (Cons g gs)
    let ?st1 = "createGeometryOverlayPoints g st"
    have step: "grows st ?st1 (slotCount g)"
      using Cons.prems by simp
    then have "findProjectionSurface (fst (snd ?st1)) = Some ps"
      using Cons.prems(1) findProjectionSurface_grows by metis
    then have "grows ?st1 (fold createGeometryOverlayPoints gs ?st1) (sum_list (map slotCount gs))"
      using Cons.IH Cons.prems by simp
    with step have "grows st (fold createGeometryOverlayPoints gs ?st1)
                      (slotCount g + sum_list (map slotCount gs))"
      by (rule grows_trans)
    then show ?case by simp
  qed
  then show ?case
    using MultiGeometry.prems by simp
qed

lemma createGeometryOverlayPoints_no_surface:
  "findProjectionSurface (fst (snd st)) = None \<Longrightarrow> createGeometryOverlayPoints geometry st = st"
  by (cases geometry) simp_all

text \<open>
  C1 (as amended). Without a map renderer or without its projection surface the build
  produces nothing: it returns the index, the layer and the output it was given. When
  the layer has a map renderer with a projection surface, the build started at index 0
  on an empty output produces, for every geometry tree whose lines have at least one
  vertex, a sequence whose length is the tree's slot count: 1 for a point, \<open>2N - 1\<close>
  for a line, twice the ring length less 2 for a closed ring summed over the rings of
  a polygon, and the sum over the children of a collection. A line without vertices
  yields no handle.
\<close>

theorem createGeometryOverlayPoints_length:
  "(findProjectionSurface L = None \<longrightarrow>
      createGeometryOverlayPoints geometry (index, L, out) = (index, L, out)) \<and>
   (findProjectionSurface L \<noteq> None \<and> linesNonEmpty geometry \<longrightarrow>
      int (length (snd (snd (createGeometryOverlayPoints geometry (0, L, []))))) = slotCount geometry) \<and>
   createGeometryOverlayPoints (LineGeometry []) (index, L, out) = (index, L, out)"
proof (intro conjI impI)
  assume "findProjectionSurface L = None"
  then show "createGeometryOverlayPoints geometry (index, L, out) = (index, L, out)"
    using createGeometryOverlayPoints_no_surface [of "(index, L, out)" geometry] by simp
next
  assume a: "findProjectionSurface L \<noteq> None \<and> linesNonEmpty geometry"
  then obtain ps where "findProjectionSurface L = Some ps"
    by auto
  then show "int (length (snd (snd (createGeometryOverlayPoints geometry (0, L, []))))) = slotCount geometry"
    using grows_createGeometryOverlayPoints [of "(0, L, [])" ps geometry] a
    by (simp add: grows_def)
next
  show "createGeometryOverlayPoints (LineGeometry []) (index, L, out) = (index, L, out)"
    by (simp split: option.splits)
qed

theorem createGeometryOverlayPoints_length_witness:
  "findProjectionSurface newLayer = None \<and>
   createGeometryOverlayPoints exampleGeometry (0, newLayer, []) = (0, newLayer, []) \<and>
   findProjectionSurface attachedLayer \<noteq> None \<and> linesNonEmpty exampleGeometry \<and>
   int (length (snd (snd (createGeometryOverlayPoints exampleGeometry (0, attachedLayer, []))))) = 14"
proof -
  have n: "findProjectionSurface newLayer = None"
    by (simp add: findProjectionSurface_def newLayer_def)
  have a: "findProjectionSurface attachedLayer \<noteq> None"
    by (simp add: findProjectionSurface_def attachedLayer_def newLayer_def planeRenderer_def)
  have b: "linesNonEmpty exampleGeometry"
    by (simp add: exampleGeometry_def)
  have c: "slotCount exampleGeometry = 14"
    by (simp add: exampleGeometry_def ringSlotCount_def)
  show ?thesis
    using createGeometryOverlayPoints_length [of newLayer exampleGeometry 0 "[]"]
      createGeometryOverlayPoints_length [of attachedLayer exampleGeometry 0 "[]"] n a b c
    by simp
qed

text \<open>
  C1 as stated fails twice. On a layer without a map renderer lines 755-758 return
  before anything is produced, so a point yields no handle where the claim counts one.
  And on a layer with a map renderer, a line without vertices yields no handle, where
  \<open>2N - 1\<close> is \<open>-1\<close>.
\<close>

theorem createGeometryOverlayPoints_detached_counterexample:
  "int (length (snd (snd (createGeometryOverlayPoints (PointGeometry (MapPos 0 0 0)) (0, newLayer, [])))))
     \<noteq> slotCount (PointGeometry (MapPos 0 0 0)) \<and>
   int (length (snd (snd (createGeometryOverlayPoints (LineGeometry []) (0, attachedLayer, [])))))
     \<noteq> slotCount (LineGeometry [])"
  by (simp add: findProjectionSurface_def newLayer_def attachedLayer_def planeRenderer_def)

section \<open>Projection failure\<close>

text \<open>
  C8. A touch event whose world position is NaN is returned as not consumed, the layer
  is left as it was (selection, overlay points, drag state, element store), and the
  log of calls is unchanged: no callback fires.
\<close>

theorem onTouchEvent_NaN:
  assumes "worldPos1IsNaN ev"
  shows "TouchHandlerListener_onTouchEvent layer ev = Some (False, layer)"
proof (cases layer)
  case None
  then show ?thesis by (simp add: TouchHandlerListener_onTouchEvent_def)
next
  case (Some L)
  have "onTouchEvent L ev = Some (False, L)"
    using assms by (simp add: onTouchEvent_def split: option.splits)
  then show ?thesis
    using Some by (simp add: TouchHandlerListener_onTouchEvent_def)
qed

text \<open>
  On the editing layer the pointer-down on a handle is consumed and starts a drag; the
  same event with a NaN world position is not consumed and leaves the layer as it was.
\<close>

theorem onTouchEvent_NaN_witness:
  "worldPos1IsNaN nanHandleDownEvent \<and>
   TouchHandlerListener_onTouchEvent (Some (editingLayer VECTOR_ELEMENT_DRAG_RESULT_MODIFY)) nanHandleDownEvent =
     Some (False, Some (editingLayer VECTOR_ELEMENT_DRAG_RESULT_MODIFY)) \<and>
   TouchHandlerListener_onTouchEvent (Some (editingLayer VECTOR_ELEMENT_DRAG_RESULT_MODIFY)) handleDownEvent =
     Some (True,
           Some ((editingLayer VECTOR_ELEMENT_DRAG_RESULT_MODIFY)
                   \<lparr>calls := [OnDragStart (makeDragInfo 1 VECTOR_ELEMENT_DRAG_MODE_VERTEX handleDownEvent)],
                    overlayDragPoint := Some 1,
                    overlayDragStarted := True\<rparr>))"
proof -
  have n: "worldPos1IsNaN nanHandleDownEvent"
    by (simp add: nanHandleDownEvent_def)
  have d: "TouchHandlerListener_onTouchEvent (Some (editingLayer VECTOR_ELEMENT_DRAG_RESULT_MODIFY)) handleDownEvent =
     Some (True,
           Some ((editingLayer VECTOR_ELEMENT_DRAG_RESULT_MODIFY)
                   \<lparr>calls := [OnDragStart (makeDragInfo 1 VECTOR_ELEMENT_DRAG_MODE_VERTEX handleDownEvent)],
                    overlayDragPoint := Some 1,
                    overlayDragStarted := True\<rparr>))"
    by (simp add: TouchHandlerListener_onTouchEvent_def onTouchEvent_def getSelectedVectorElement_def
          touchDown_def callOnDragStart_def Let_def updateElementPoint_def findOverlayPoint_def
          handleDownEvent_def bodyDownEvent_def editingLayer_def attachedLayer_def newLayer_def
          exampleListener_def lineHandles_def planeRenderer_def)
  show ?thesis
    using onTouchEvent_NaN [OF n, of "Some (editingLayer VECTOR_ELEMENT_DRAG_RESULT_MODIFY)"] n d
    by simp
qed

section \<open>Selection without a listener\<close>

text \<open>
  C9 (as amended). Selecting an element other than the current one, on a layer without
  an edit listener, resets the selection, the overlay points, the drag point, the drag
  geometry, the drag-started flag and the three styles, leaves every other field as it
  was (the drag mode and the drag reference position among them), asks for a refresh
  and commits nothing: afterwards \<open>getSelectedVectorElement\<close> returns null. The new
  element is the selection afterwards exactly when a listener exists and its
  \<open>onElementSelect\<close> returns true; otherwise nothing is selected.
\<close>

theorem setSelectedVectorElement_commit:
  assumes "Some e \<noteq> selectedVectorElement L"
  shows "(vectorEditEventListener L = None \<longrightarrow>
            setSelectedVectorElement L (Some e) =
              L\<lparr>selectedVectorElement := None,
                overlayPoints := [],
                overlayDragPoint := None,
                overlayDragGeometry := None,
                overlayDragStarted := False,
                overlayStyleNormal := None,
                overlayStyleVirtual := None,
                overlayStyleSelected := None,
                calls := calls L @ [Refresh]\<rparr> \<and>
            getSelectedVectorElement (setSelectedVectorElement L (Some e)) = None) \<and>
         (getSelectedVectorElement (setSelectedVectorElement L (Some e)) = Some e \<longleftrightarrow>
            (case vectorEditEventListener L of
               None \<Rightarrow> False
             | Some listener \<Rightarrow> onElementSelect listener e)) \<and>
         (getSelectedVectorElement (setSelectedVectorElement L (Some e)) \<noteq> Some e \<longrightarrow>
            getSelectedVectorElement (setSelectedVectorElement L (Some e)) = None)"
proof (cases "vectorEditEventListener L")
  case None
  then show ?thesis
    using assms
    by (simp add: setSelectedVectorElement_def getSelectedVectorElement_def clearSelection_def
          refresh_def Let_def)
next
  case (Some listener)
  then show ?thesis
    using assms
    by (simp add: setSelectedVectorElement_def getSelectedVectorElement_def clearSelection_def
          refresh_def Let_def split: option.splits)
qed

theorem setSelectedVectorElement_commit_witness:
  "Some 2 \<noteq> selectedVectorElement staleLayer \<and>
   vectorEditEventListener staleLayer = None \<and>
   setSelectedVectorElement staleLayer (Some 2) =
     attachedLayer\<lparr>overlayDragGeometryPos := MapPos 1 1 0,
                   overlayDragMode := VECTOR_ELEMENT_DRAG_MODE_ELEMENT,
                   calls := [Refresh]\<rparr> \<and>
   getSelectedVectorElement (setSelectedVectorElement staleLayer (Some 2)) = None"
proof -
  have h: "Some 2 \<noteq> selectedVectorElement staleLayer"
    by (simp add: staleLayer_def)
  have l: "vectorEditEventListener staleLayer = None"
    by (simp add: staleLayer_def attachedLayer_def newLayer_def)
  have c: "staleLayer\<lparr>selectedVectorElement := None,
                overlayPoints := [],
                overlayDragPoint := None,
                overlayDragGeometry := None,
                overlayDragStarted := False,
                overlayStyleNormal := None,
                overlayStyleVirtual := None,
                overlayStyleSelected := None,
                calls := calls staleLayer @ [Refresh]\<rparr> =
           attachedLayer\<lparr>overlayDragGeometryPos := MapPos 1 1 0,
                   overlayDragMode := VECTOR_ELEMENT_DRAG_MODE_ELEMENT,
                   calls := [Refresh]\<rparr>"
    by (simp add: staleLayer_def attachedLayer_def newLayer_def)
  from setSelectedVectorElement_commit [OF h] l c h show ?thesis
    by metis
qed

text \<open>
  C9 as stated fails: not all drag state is cleared. The drag mode and the drag
  reference position are not among the fields that lines 81-90 reset, so after the
  call they still hold the values of the drag that was under way.
\<close>

theorem setSelectedVectorElement_drag_mode_counterexample:
  "vectorEditEventListener staleLayer = None \<and>
   Some 2 \<noteq> selectedVectorElement staleLayer \<and>
   overlayDragMode (setSelectedVectorElement staleLayer (Some 2)) = VECTOR_ELEMENT_DRAG_MODE_ELEMENT \<and>
   overlayDragGeometryPos (setSelectedVectorElement staleLayer (Some 2)) = MapPos 1 1 0 \<and>
   \<not> selectionStateReset (setSelectedVectorElement staleLayer (Some 2))"
  by (simp add: setSelectedVectorElement_def clearSelection_def refresh_def Let_def
        selectionStateReset_def staleLayer_def attachedLayer_def newLayer_def)

section \<open>Vector operations in range\<close>

lemma vector_erase_nat: "i < length v \<Longrightarrow> vector_erase v (int i) = Some (take i v @ drop (Suc i) v)"
  by (simp add: vector_erase_def)

lemma vector_insert_nat: "i \<le> length v \<Longrightarrow> vector_insert v (int i) x = Some (take i v @ x # drop i v)"
  by (simp add: vector_insert_def)

lemma vector_set_nat: "i < length v \<Longrightarrow> vector_set v (int i) x = Some (v[i := x])"
  by (simp add: vector_set_def)


section \<open>Deleting a vertex of a line\<close>

text \<open>
  C3. For a line of \<open>N\<close> vertices whose \<open>2N - 1\<close> handles lie in the overlay sequence
  from \<open>offset\<close> on, \<open>removeGeometryPoint\<close> at the even local index \<open>2k\<close>: with
  \<open>N > 2\<close> removes vertex \<open>k\<close>, leaving \<open>N - 1\<close> vertices, together with two overlay
  entries, the vertex's own and the midpoint before it, or the midpoint after it when
  \<open>k = 0\<close>; with \<open>N = 2\<close> returns null. A line of three vertices so becomes a line of
  two.
\<close>

theorem removeGeometryPoint_line:
  assumes idx: "index = int i" "index - offset = 2 * int k"
    and rng: "2 * int k < 2 * int (length mapPoses) - 1"
    and off: "0 \<le> offset"
    and cover: "offset + (2 * int (length mapPoses) - 1) \<le> int (length (overlayPoints L))"
  shows "(length mapPoses > 2 \<longrightarrow>
            removeGeometryPoint (LineGeometry mapPoses) offset index L =
              Some (Some (LineGeometry (take k mapPoses @ drop (Suc k) mapPoses)),
                    offset + (2 * int (length mapPoses) - 1),
                    L\<lparr>overlayPoints :=
                        (if k > 0 then take (i - 1) (overlayPoints L) @ drop (Suc i) (overlayPoints L)
                         else take i (overlayPoints L) @ drop (i + 2) (overlayPoints L))\<rparr>) \<and>
            length (take k mapPoses @ drop (Suc k) mapPoses) = length mapPoses - 1) \<and>
         (length mapPoses = 2 \<longrightarrow>
            removeGeometryPoint (LineGeometry mapPoses) offset index L = Some (None, offset + 3, L))"
proof -
  let ?ov = "overlayPoints L"
  have k: "k < length mapPoses" using rng by linarith
  have i: "i < length ?ov" using idx rng cover by linarith
  have li: "index - offset = int (2 * k)" using idx by simp
  have ge: "\<not> index < offset" using idx(2) by linarith
  have d: "(2 * int k) div 2 = int k" "(2 * int k) mod 2 = 0" by simp_all
  have e1: "vector_erase mapPoses (int k) = Some (take k mapPoses @ drop (Suc k) mapPoses)"
    using k by (rule vector_erase_nat)
  have e2: "vector_erase ?ov (int i) = Some (take i ?ov @ drop (Suc i) ?ov)"
    using i by (rule vector_erase_nat)
  have two: "length mapPoses = 2 \<Longrightarrow> ?thesis"
    using ge rng idx by (simp add: Let_def d)
  have many: "length mapPoses > 2 \<Longrightarrow> ?thesis"
  proof (cases "k > 0")
    case True
    assume n: "length mapPoses > 2"
    have ipos: "i > 0" using True idx off by linarith
    have "vector_erase (take i ?ov @ drop (Suc i) ?ov) (int (i - 1)) =
            Some (take (i - 1) (take i ?ov @ drop (Suc i) ?ov) @ drop (Suc (i - 1)) (take i ?ov @ drop (Suc i) ?ov))"
      using i ipos by (intro vector_erase_nat) simp
    moreover have "take (i - 1) (take i ?ov @ drop (Suc i) ?ov) @ drop (Suc (i - 1)) (take i ?ov @ drop (Suc i) ?ov)
        = take (i - 1) ?ov @ drop (Suc i) ?ov"
      using i ipos by (simp add: min_def)
    moreover have "int (i - 1) = index - 1" using ipos idx by simp
    ultimately have e3: "vector_erase (take i ?ov @ drop (Suc i) ?ov) (index - 1) = Some (take (i - 1) ?ov @ drop (Suc i) ?ov)"
      by simp
    show ?thesis
      using ge rng n True k e1 e2 e3 idx by (simp add: Let_def d)
  next
    case False
    assume n: "length mapPoses > 2"
    have i2: "i + 1 < length ?ov" using False idx n cover by linarith
    have "vector_erase (take i ?ov @ drop (Suc i) ?ov) (int i) =
            Some (take i (take i ?ov @ drop (Suc i) ?ov) @ drop (Suc i) (take i ?ov @ drop (Suc i) ?ov))"
      using i2 by (intro vector_erase_nat) simp
    moreover have "take i (take i ?ov @ drop (Suc i) ?ov) @ drop (Suc i) (take i ?ov @ drop (Suc i) ?ov)
        = take i ?ov @ drop (i + 2) ?ov"
      using i2 by (simp add: min_def)
    ultimately have e3: "vector_erase (take i ?ov @ drop (Suc i) ?ov) index = Some (take i ?ov @ drop (i + 2) ?ov)"
      using idx by simp
    show ?thesis
      using ge rng n False k e1 e2 e3 idx by (simp add: Let_def d)
  qed
  show ?thesis using two many by linarith
qed

section \<open>Inserting a vertex at a virtual handle\<close>

lemma createOverlayPoint_new:
  "int (length (overlayPoints L)) \<le> INT_MAX \<Longrightarrow>
   createOverlayPoint L mapPos v INT_MAX =
     (newOverlayPoint L (heapNext L) mapPos v, L\<lparr>heapNext := Suc (heapNext L)\<rparr>)"
  by (simp add: createOverlayPoint_def newOverlayPoint_def Let_def)

lemma insertOverlayPoints_eq:
  assumes "i < length (overlayPoints L)" "int (length (overlayPoints L)) < INT_MAX"
  shows "insertOverlayPoints L (int i) mapPos = Some (withInsertedHandles L i mapPos)"
proof -
  let ?ov = "overlayPoints L"
  let ?v = "newOverlayPoint L (heapNext L) mapPos True"
  let ?L1 = "L\<lparr>heapNext := Suc (heapNext L)\<rparr>"
  let ?ov1 = "take (Suc i) ?ov @ ?v # drop (Suc i) ?ov"
  let ?L1' = "?L1\<lparr>overlayPoints := ?ov1\<rparr>"
  let ?r = "newOverlayPoint L (Suc (heapNext L)) mapPos False"
  have c1: "createOverlayPoint L mapPos True INT_MAX = (?v, ?L1)"
    using assms by (intro createOverlayPoint_new) simp
  have i1: "vector_insert (overlayPoints ?L1) (int i + 1) ?v = Some ?ov1"
    using vector_insert_nat [of "Suc i" ?ov ?v] assms by (simp add: add.commute)
  have "int (length (overlayPoints ?L1')) \<le> INT_MAX"
    using assms by simp
  then have "createOverlayPoint ?L1' mapPos False INT_MAX =
      (newOverlayPoint ?L1' (heapNext ?L1') mapPos False, ?L1'\<lparr>heapNext := Suc (heapNext ?L1')\<rparr>)"
    by (rule createOverlayPoint_new)
  then have c2: "createOverlayPoint ?L1' mapPos False INT_MAX = (?r, ?L1'\<lparr>heapNext := Suc (Suc (heapNext L))\<rparr>)"
    by (simp add: newOverlayPoint_def)
  have i2: "vector_insert ?ov1 (int i) ?r = Some (take i ?ov1 @ ?r # drop i ?ov1)"
    using assms by (intro vector_insert_nat) simp
  have sh: "take i ?ov1 @ ?r # drop i ?ov1 = take i ?ov @ [?r, ?ov ! i, ?v] @ drop (Suc i) ?ov"
    using assms by (simp add: min_def take_Suc_conv_app_nth)
  show ?thesis
    unfolding insertOverlayPoints_def
    using c1 i1 c2 i2 sh by (simp add: withInsertedHandles_def)
qed

lemma ringPoints_nonneg: "0 \<le> ringPoints ring"
  by (cases ring) (auto simp: ringPoints_def closedRing_def)

lemma sum_ringPoints_nonneg: "0 \<le> sum_list (map ringPoints rings)"
  by (induction rings) (auto simp: ringPoints_nonneg intro: add_nonneg_nonneg)

lemma ringPoints_le: "ringPoints ring \<le> 2 * int (length ring)"
  by (simp add: ringPoints_def)

lemma odd_div_mod: "(2 * int k + 1) div 2 = int k" "(2 * int k + 1) mod 2 = 1"
  by simp_all

lemma updateGeometryPoint_rings_odd:
  assumes "index = int i" "i < length (overlayPoints L)"
    and "int (length (overlayPoints L)) < INT_MAX"
    and "index - (offset + points + sum_list (map ringPoints before)) = 2 * int k + 1"
    and "2 * int k + 1 < ringPoints ring"
  shows "updateGeometryPoint_rings (before @ ring # rest) offset points index mapPos L =
           Some (before @ (take (Suc k) ring @ mapPos # drop (Suc k) ring) # rest,
                 offset + points + sum_list (map ringPoints before), ringPoints ring,
                 withInsertedHandles L i mapPos)"
  using assms(4)
proof (induction before arbitrary: offset points)
  case Nil
  have k: "Suc k \<le> length ring"
    using assms(5) ringPoints_le [of ring] by linarith
  have li: "index - (offset + points) = 2 * int k + 1"
    using Nil by simp
  have ins: "vector_insert ring (int k + 1) mapPos = Some (take (Suc k) ring @ mapPos # drop (Suc k) ring)"
    using vector_insert_nat [OF k, of mapPos] by (simp add: add.commute)
  have ov: "insertOverlayPoints L index mapPos = Some (withInsertedHandles L i mapPos)"
    using insertOverlayPoints_eq [OF assms(2,3)] assms(1) by simp
  show ?case
    using assms(5) by (simp add: Let_def li odd_div_mod ins ov)
next
  case (Cons b bs)
  have "0 \<le> sum_list (map ringPoints bs)"
    by (rule sum_ringPoints_nonneg)
  then have miss: "\<not> index - (offset + points) < ringPoints b"
    using Cons.prems by simp
  have "index - (offset + points + ringPoints b + sum_list (map ringPoints bs)) = 2 * int k + 1"
    using Cons.prems by simp
  then have "updateGeometryPoint_rings (bs @ ring # rest) (offset + points) (ringPoints b) index mapPos L =
      Some (bs @ (take (Suc k) ring @ mapPos # drop (Suc k) ring) # rest,
            offset + points + ringPoints b + sum_list (map ringPoints bs), ringPoints ring,
            withInsertedHandles L i mapPos)"
    by (rule Cons.IH)
  then show ?case
    using miss by (simp add: Let_def add.assoc)
qed

text \<open>
  C2. For a line, and for a ring of a polygon, \<open>updateGeometryPoint\<close> at the odd local
  index \<open>2k + 1\<close> in range, the index being a position \<open>i\<close> of the overlay sequence,
  inserts \<open>newPos\<close> at vertex position \<open>k + 1\<close> and splices two new handles into the
  overlay sequence around entry \<open>i\<close>, one flagged real and one flagged virtual: the
  sequence is longer by 2.
\<close>

theorem updateGeometryPoint_odd_inserts:
  assumes "index = int i" "i < length (overlayPoints L)"
    and "int (length (overlayPoints L)) < INT_MAX"
  shows "(index - offset = 2 * int k + 1 \<and> 2 * int k + 1 < 2 * int (length mapPoses) - 1 \<longrightarrow>
            updateGeometryPoint (LineGeometry mapPoses) offset index newPos L =
              Some (Some (LineGeometry (take (Suc k) mapPoses @ newPos # drop (Suc k) mapPoses)),
                    offset + (2 * int (length mapPoses) - 1),
                    withInsertedHandles L i newPos)) \<and>
         (index - (offset + sum_list (map ringPoints before)) = 2 * int k + 1 \<and>
          2 * int k + 1 < ringPoints ring \<longrightarrow>
            updateGeometryPoint (PolygonGeometry (before @ ring # rest)) offset index newPos L =
              Some (Some (PolygonGeometry (before @ (take (Suc k) ring @ newPos # drop (Suc k) ring) # rest)),
                    offset + sum_list (map ringPoints before) + ringPoints ring,
                    withInsertedHandles L i newPos)) \<and>
         length (overlayPoints (withInsertedHandles L i newPos)) = length (overlayPoints L) + 2"
proof (intro conjI impI)
  assume a: "index - offset = 2 * int k + 1 \<and> 2 * int k + 1 < 2 * int (length mapPoses) - 1"
  have k: "Suc k \<le> length mapPoses" using a by linarith
  have ins: "vector_insert mapPoses (int k + 1) newPos = Some (take (Suc k) mapPoses @ newPos # drop (Suc k) mapPoses)"
    using vector_insert_nat [OF k, of newPos] by (simp add: add.commute)
  have ov: "insertOverlayPoints L index newPos = Some (withInsertedHandles L i newPos)"
    using insertOverlayPoints_eq [OF assms(2,3)] assms(1) by simp
  have ge: "\<not> index < offset" using a by linarith
  show "updateGeometryPoint (LineGeometry mapPoses) offset index newPos L =
              Some (Some (LineGeometry (take (Suc k) mapPoses @ newPos # drop (Suc k) mapPoses)),
                    offset + (2 * int (length mapPoses) - 1),
                    withInsertedHandles L i newPos)"
    using a ge by (simp add: Let_def odd_div_mod ins ov)
next
  assume a: "index - (offset + sum_list (map ringPoints before)) = 2 * int k + 1 \<and>
          2 * int k + 1 < ringPoints ring"
  have "0 \<le> sum_list (map ringPoints before)" by (rule sum_ringPoints_nonneg)
  then have ge: "\<not> index < offset" using a by linarith
  have "updateGeometryPoint_rings (before @ ring # rest) offset 0 index newPos L =
           Some (before @ (take (Suc k) ring @ newPos # drop (Suc k) ring) # rest,
                 offset + 0 + sum_list (map ringPoints before), ringPoints ring,
                 withInsertedHandles L i newPos)"
    using assms a by (intro updateGeometryPoint_rings_odd) simp_all
  then show "updateGeometryPoint (PolygonGeometry (before @ ring # rest)) offset index newPos L =
              Some (Some (PolygonGeometry (before @ (take (Suc k) ring @ newPos # drop (Suc k) ring) # rest)),
                    offset + sum_list (map ringPoints before) + ringPoints ring,
                    withInsertedHandles L i newPos)"
    using ge by simp
next
  show "length (overlayPoints (withInsertedHandles L i newPos)) = length (overlayPoints L) + 2"
    using assms(2) by (simp add: withInsertedHandles_def)
qed

section \<open>The example states\<close>

lemmas example_defs =
  editingLayer_def attachedLayer_def newLayer_def exampleListener_def lineHandles_def
  lineElement_def planeRenderer_def planeSurface_def planeMidPos_def

text \<open>
  The editing layer is what selecting element 1 and rebuilding its handles makes of the
  attached layer with the example listener, up to the log of calls.
\<close>

lemma editingLayer_reachable:
  "syncElementOverlayPoints
     (setSelectedVectorElement (attachedLayer\<lparr>vectorEditEventListener := Some (exampleListener verdict)\<rparr>) (Some 1))
     (Some 1) =
   (editingLayer verdict)
     \<lparr>calls := [OnElementSelect 1,
                 OnSelectDragPointStyle 1 VECTOR_ELEMENT_DRAG_POINT_STYLE_NORMAL,
                 OnSelectDragPointStyle 1 VECTOR_ELEMENT_DRAG_POINT_STYLE_VIRTUAL,
                 OnSelectDragPointStyle 1 VECTOR_ELEMENT_DRAG_POINT_STYLE_SELECTED,
                 Refresh]\<rparr>"
  by (simp add: syncElementOverlayPoints_def setSelectedVectorElement_def clearSelection_def
        attachedLayer_def newLayer_def exampleListener_def editingLayer_def lineHandles_def
        lineElement_def refresh_def findProjectionSurface_def planeRenderer_def planeSurface_def
        planeMidPos_def lineStep_def pushOverlayPoint_def createOverlayPoint_def Let_def
        upt_conv_Cons)

theorem updateGeometryPoint_odd_inserts_witness:
  "updateGeometryPoint (LineGeometry [MapPos 0 0 0, MapPos 2 0 0, MapPos 2 2 0]) 0 1 (MapPos 0 (1/2) 0)
     (editingLayer VECTOR_ELEMENT_DRAG_RESULT_MODIFY) =
   Some (Some (LineGeometry [MapPos 0 0 0, MapPos 0 (1/2) 0, MapPos 2 0 0, MapPos 2 2 0]), 5,
         withInsertedHandles (editingLayer VECTOR_ELEMENT_DRAG_RESULT_MODIFY) 1 (MapPos 0 (1/2) 0)) \<and>
   updateGeometryPoint (PolygonGeometry [squareRing]) 0 1 (MapPos 0 (1/2) 0)
     (editingLayer VECTOR_ELEMENT_DRAG_RESULT_MODIFY) =
   Some (Some (PolygonGeometry
                 [[MapPos 0 0 0, MapPos 0 (1/2) 0, MapPos 0 1 0, MapPos 1 1 0, MapPos 1 0 0, MapPos 0 0 0]]), 8,
         withInsertedHandles (editingLayer VECTOR_ELEMENT_DRAG_RESULT_MODIFY) 1 (MapPos 0 (1/2) 0)) \<and>
   overlayPoints (withInsertedHandles (editingLayer VECTOR_ELEMENT_DRAG_RESULT_MODIFY) 1 (MapPos 0 (1/2) 0)) =
     [lineHandles ! 0,
      \<lparr>ptRef = 6, ptPos = MapPos 0 (1/2) 0, ptStyle = Some 100, ptDrawData = True\<rparr>,
      lineHandles ! 1,
      \<lparr>ptRef = 5, ptPos = MapPos 0 (1/2) 0, ptStyle = Some 101, ptDrawData = True\<rparr>,
      lineHandles ! 2, lineHandles ! 3, lineHandles ! 4]"
proof -
  let ?L = "editingLayer VECTOR_ELEMENT_DRAG_RESULT_MODIFY"
  have ov: "overlayPoints ?L = lineHandles"
    by (simp add: editingLayer_def)
  have h1: "(1::int) = int 1" by simp
  have h2: "1 < length (overlayPoints ?L)" by (simp add: ov lineHandles_def)
  have h3: "int (length (overlayPoints ?L)) < INT_MAX" by (simp add: ov lineHandles_def INT_MAX_def)
  have sq: "ringPoints squareRing = 8"
    by (simp add: ringPoints_def squareRing_def closedRing_def)
  have w: "overlayPoints (withInsertedHandles ?L 1 (MapPos 0 (1/2) 0)) =
     [lineHandles ! 0,
      \<lparr>ptRef = 6, ptPos = MapPos 0 (1/2) 0, ptStyle = Some 100, ptDrawData = True\<rparr>,
      lineHandles ! 1,
      \<lparr>ptRef = 5, ptPos = MapPos 0 (1/2) 0, ptStyle = Some 101, ptDrawData = True\<rparr>,
      lineHandles ! 2, lineHandles ! 3, lineHandles ! 4]"
    by (simp add: withInsertedHandles_def newOverlayPoint_def example_defs)
  show ?thesis
    using updateGeometryPoint_odd_inserts [OF h1 h2 h3, of 0 0
        "[MapPos 0 0 0, MapPos 2 0 0, MapPos 2 2 0]" "MapPos 0 (1/2) 0" "[]" squareRing "[]"]
      sq w
    by (simp add: squareRing_def del: updateGeometryPoint.simps)
qed

theorem removeGeometryPoint_line_witness:
  "removeGeometryPoint (LineGeometry [MapPos 0 0 0, MapPos 2 0 0, MapPos 2 2 0]) 0 2
     (editingLayer VECTOR_ELEMENT_DRAG_RESULT_DELETE) =
   Some (Some (LineGeometry [MapPos 0 0 0, MapPos 2 2 0]), 5,
         (editingLayer VECTOR_ELEMENT_DRAG_RESULT_DELETE)
           \<lparr>overlayPoints := [lineHandles ! 0, lineHandles ! 3, lineHandles ! 4]\<rparr>)"
proof -
  let ?L = "editingLayer VECTOR_ELEMENT_DRAG_RESULT_DELETE"
  let ?line = "[MapPos 0 0 0, MapPos 2 0 0, MapPos 2 2 0]"
  have ov: "overlayPoints ?L = lineHandles"
    by (simp add: editingLayer_def)
  have h1: "(2::int) = int 2" by simp
  have h2: "(2::int) - 0 = 2 * int 1" by simp
  have h3: "2 * int 1 < 2 * int (length ?line) - 1" by simp
  have h4: "(0::int) \<le> 0" by simp
  have h5: "0 + (2 * int (length ?line) - 1) \<le> int (length (overlayPoints ?L))"
    by (simp add: ov lineHandles_def)
  show ?thesis
    using removeGeometryPoint_line [OF h1 h2 h3 h4 h5]
    by (simp add: ov lineHandles_def del: removeGeometryPoint.simps)
qed

section \<open>Closed rings stay closed\<close>

lemma keepsClosed_refl: "keepsClosed rings rings"
  by (simp add: keepsClosed_def list_all2_refl)

lemma keepsClosed_Cons:
  "(closedRing ring \<Longrightarrow> closedRing ring') \<Longrightarrow> keepsClosed rest rest' \<Longrightarrow>
   keepsClosed (ring # rest) (ring' # rest')"
  by (simp add: keepsClosed_def)

lemma keepsClosed_middle:
  "(closedRing ring \<Longrightarrow> closedRing ring') \<Longrightarrow>
   keepsClosed (before @ ring # rest) (before @ ring' # rest)"
  by (simp add: keepsClosed_def list_all2_appendI list_all2_refl)

lemma closedRing_setBackToFront: "ring \<noteq> [] \<Longrightarrow> closedRing (setBackToFront ring)"
  by (cases ring rule: rev_cases) (auto simp: closedRing_def setBackToFront_def hd_append)

lemma closedRing_update_inner:
  "closedRing ring \<Longrightarrow> 0 < k \<Longrightarrow> Suc k < length ring \<Longrightarrow> closedRing (ring[k := x])"
  by (cases ring) (auto simp: closedRing_def last_list_update split: nat.splits)

lemma closedRing_insert_inner:
  "closedRing ring \<Longrightarrow> 0 < k \<Longrightarrow> k < length ring \<Longrightarrow>
   closedRing (take k ring @ x # drop k ring)"
  by (cases ring) (auto simp: closedRing_def hd_append take_Cons' split: if_splits)

lemma closedRing_erase_inner:
  "closedRing ring \<Longrightarrow> 0 < k \<Longrightarrow> Suc k < length ring \<Longrightarrow>
   closedRing (take k ring @ drop (Suc k) ring)"
  by (cases ring) (auto simp: closedRing_def hd_append take_Cons' split: if_splits)


lemma ringPoints_closed: "closedRing ring \<Longrightarrow> ringPoints ring = 2 * int (length ring) - 2"
  by (simp add: ringPoints_def)

lemma even_local:
  assumes "0 \<le> (l::int)" "l mod 2 = 0"
  shows "l div 2 = int (nat (l div 2))" "l = 2 * int (nat (l div 2))"
  using assms by auto

lemma odd_local:
  assumes "0 \<le> (l::int)" "l mod 2 \<noteq> 0"
  shows "l div 2 + 1 = int (Suc (nat (l div 2)))" "l = 2 * int (nat (l div 2)) + 1"
  using assms by (auto simp: nat_add_distrib) presburger+

lemma updateRing_even_closed:
  assumes "closedRing ring" "0 \<le> l" "l < ringPoints ring" "l mod 2 = 0"
    and "vector_set ring (l div 2) mapPos = Some ring1"
  shows "closedRing (if closedRing ring \<and> l = 0 then setBackToFront ring1 else ring1)"
proof -
  let ?k = "nat (l div 2)"
  have k: "l div 2 = int ?k" "l = 2 * int ?k" using even_local [OF assms(2,4)] by auto
  have len: "Suc ?k < length ring"
    using assms(3) k(2) ringPoints_closed [OF assms(1)] by linarith
  have "vector_set ring (int ?k) mapPos = Some ring1"
    using assms(5) k(1) by simp
  moreover have "vector_set ring (int ?k) mapPos = Some (ring[?k := mapPos])"
    using len by (intro vector_set_nat) simp
  ultimately have r1: "ring1 = ring[?k := mapPos]"
    by simp
  show ?thesis
  proof (cases "l = 0")
    case True
    have "ring1 \<noteq> []" using r1 len by auto
    then show ?thesis using True assms(1) closedRing_setBackToFront by simp
  next
    case False
    then have "0 < ?k" using k(2) by linarith
    then show ?thesis using False r1 closedRing_update_inner [OF assms(1) _ len] by simp
  qed
qed

lemma updateRing_odd_closed:
  assumes "closedRing ring" "0 \<le> l" "l < ringPoints ring" "l mod 2 \<noteq> 0"
    and "vector_insert ring (l div 2 + 1) mapPos = Some ring1"
  shows "closedRing ring1"
proof -
  let ?k = "Suc (nat (l div 2))"
  have k: "l div 2 + 1 = int ?k" "l = 2 * int (nat (l div 2)) + 1" using odd_local [OF assms(2,4)] by auto
  have len: "?k < length ring"
    using assms(3) k(2) ringPoints_closed [OF assms(1)] by linarith
  have "vector_insert ring (int ?k) mapPos = Some ring1"
    using assms(5) k(1) by simp
  moreover have "vector_insert ring (int ?k) mapPos = Some (take ?k ring @ mapPos # drop ?k ring)"
    using len by (intro vector_insert_nat) simp
  ultimately have r1: "ring1 = take ?k ring @ mapPos # drop ?k ring"
    by simp
  show ?thesis
    unfolding r1 using assms(1) len by (intro closedRing_insert_inner) simp_all
qed

lemma updateGeometryPoint_rings_keepsClosed:
  "updateGeometryPoint_rings rings offset points index mapPos L = Some (rings', res) \<Longrightarrow>
   0 \<le> index - (offset + points) \<Longrightarrow> keepsClosed rings rings'"
proof (induction rings arbitrary: offset points rings' res)
  case Nil
  then show ?case by (simp add: keepsClosed_def)
next
  case (Cons ring rest)
  let ?l = "index - (offset + points)"
  show ?case
  proof (cases "?l < ringPoints ring")
    case hit: True
    show ?thesis
    proof (cases "?l mod 2 = 0")
      case True
      then obtain ring1 where v: "vector_set ring (?l div 2) mapPos = Some ring1"
        and r: "rings' = (if closedRing ring \<and> ?l = 0 then setBackToFront ring1 else ring1) # rest"
        using Cons.prems(1) hit by (auto simp: Let_def split: option.splits)
      have "closedRing ring \<Longrightarrow> closedRing (if closedRing ring \<and> ?l = 0 then setBackToFront ring1 else ring1)"
        using updateRing_even_closed [OF _ Cons.prems(2) hit True v] by simp
      then show ?thesis
        unfolding r by (intro keepsClosed_Cons keepsClosed_refl)
    next
      case False
      then obtain ring1 where v: "vector_insert ring (?l div 2 + 1) mapPos = Some ring1"
        and r: "rings' = ring1 # rest"
        using Cons.prems(1) hit by (auto simp: Let_def split: option.splits)
      have "closedRing ring \<Longrightarrow> closedRing ring1"
        using updateRing_odd_closed [OF _ Cons.prems(2) hit False v] by simp
      then show ?thesis
        unfolding r by (intro keepsClosed_Cons keepsClosed_refl)
    qed
  next
    case miss: False
    then obtain rest' res' where
      rec: "updateGeometryPoint_rings rest (offset + points) (ringPoints ring) index mapPos L = Some (rest', res')"
      and r: "rings' = ring # rest'"
      using Cons.prems(1) by (auto simp: Let_def split: option.splits)
    have "0 \<le> index - (offset + points + ringPoints ring)"
      using miss by linarith
    then have "keepsClosed rest rest'"
      using Cons.IH [OF rec] by simp
    then show ?thesis
      unfolding r by (intro keepsClosed_Cons)
  qed
qed

lemma ringDroppedI:
  "n < length rings \<Longrightarrow> rings' = take n rings @ drop (Suc n) rings \<Longrightarrow> ringDropped rings rings'"
  unfolding ringDropped_def list_ex_iff by (intro bexI [of _ n]) simp_all

lemma removeRing_closed:
  assumes "closedRing ring" "0 \<le> l" "l < ringPoints ring" "l mod 2 = 0" "6 < ringPoints ring"
    and "vector_erase ring (l div 2) = Some ring1"
  shows "closedRing (if closedRing ring \<and> l = 0 then setBackToFront ring1 else ring1)"
proof -
  let ?k = "nat (l div 2)"
  have k: "l div 2 = int ?k" "l = 2 * int ?k" using even_local [OF assms(2,4)] by auto
  have len: "Suc ?k < length ring"
    using assms(3) k(2) ringPoints_closed [OF assms(1)] by linarith
  have big: "4 < length ring"
    using assms(5) ringPoints_closed [OF assms(1)] by linarith
  have "vector_erase ring (int ?k) = Some ring1"
    using assms(6) k(1) by simp
  moreover have "vector_erase ring (int ?k) = Some (take ?k ring @ drop (Suc ?k) ring)"
    using len by (intro vector_erase_nat) simp
  ultimately have r1: "ring1 = take ?k ring @ drop (Suc ?k) ring"
    by simp
  show ?thesis
  proof (cases "l = 0")
    case True
    have "ring1 \<noteq> []" using r1 len big by auto
    then show ?thesis using True assms(1) closedRing_setBackToFront by simp
  next
    case False
    then have "0 < ?k" using k(2) by linarith
    then show ?thesis using False r1 closedRing_erase_inner [OF assms(1) _ len] by simp
  qed
qed

lemma removeGeometryPoint_rings_keepsClosed:
  "removeGeometryPoint_rings before rings offset points index L = Some (Some geometry', res) \<Longrightarrow>
   0 \<le> index - (offset + points) \<Longrightarrow>
   \<exists>rings'. geometry' = PolygonGeometry rings' \<and>
     (keepsClosed (before @ rings) rings' \<or> ringDropped (before @ rings) rings')"
proof (induction rings arbitrary: before offset points)
  case Nil
  then show ?case by (auto simp: keepsClosed_refl)
next
  case (Cons ring rest)
  let ?l = "index - (offset + points)"
  let ?rings = "before @ ring # rest"
  show ?case
  proof (cases "?l < ringPoints ring")
    case hit: True
    show ?thesis
    proof (cases "?l mod 2 = 0")
      case even: True
      show ?thesis
      proof (cases "6 < ringPoints ring")
        case True
        then obtain ring1 where v: "vector_erase ring (?l div 2) = Some ring1"
          and r: "geometry' = PolygonGeometry
                    (before @ (if closedRing ring \<and> ?l = 0 then setBackToFront ring1 else ring1) # rest)"
          using Cons.prems(1) hit even by (auto simp: Let_def split: option.splits)
        have "closedRing ring \<Longrightarrow> closedRing (if closedRing ring \<and> ?l = 0 then setBackToFront ring1 else ring1)"
          using removeRing_closed [OF _ Cons.prems(2) hit even True v] by simp
        then have "keepsClosed ?rings
                     (before @ (if closedRing ring \<and> ?l = 0 then setBackToFront ring1 else ring1) # rest)"
          by (rule keepsClosed_middle)
        then show ?thesis using r by blast
      next
        case False
        let ?n = "case vector_find (\<lambda>r. r = ring) ?rings of None \<Rightarrow> length ?rings | Some k \<Rightarrow> k"
        obtain rings' where v: "vector_erase ?rings (int ?n) = Some rings'"
          and r: "geometry' = PolygonGeometry rings'"
          using Cons.prems(1) hit even False
          by (auto simp: Let_def split: option.splits if_splits)
        have "?n < length ?rings \<and> rings' = take ?n ?rings @ drop (Suc ?n) ?rings"
          using v by (simp add: vector_erase_def split: if_splits)
        then have "ringDropped ?rings rings'"
          by (blast intro: ringDroppedI)
        then show ?thesis using r by blast
      qed
    next
      case False
      then have "geometry' = PolygonGeometry ?rings"
        using Cons.prems(1) hit by (auto simp: Let_def)
      then show ?thesis by (auto simp: keepsClosed_refl)
    qed
  next
    case miss: False
    then have rec: "removeGeometryPoint_rings (before @ [ring]) rest (offset + points) (ringPoints ring) index L
                      = Some (Some geometry', res)"
      using Cons.prems(1) by (simp add: Let_def)
    have "0 \<le> index - (offset + points + ringPoints ring)"
      using miss by linarith
    then show ?thesis
      using Cons.IH [OF rec] by simp
  qed
qed

text \<open>
  C10. A polygon returned by \<open>updateGeometryPoint\<close> has, ring by ring, a closed ring
  wherever the polygon it was given has one. A polygon returned by
  \<open>removeGeometryPoint\<close> has the same property, or is the given polygon with one ring
  dropped and the others untouched.
\<close>

theorem ring_closure_invariant:
  "(updateGeometryPoint (PolygonGeometry rings) offset index mapPos L = Some (Some geometry', offset', L') \<longrightarrow>
      (\<exists>rings'. geometry' = PolygonGeometry rings' \<and> keepsClosed rings rings')) \<and>
   (removeGeometryPoint (PolygonGeometry rings) offset index L = Some (Some geometry', offset', L') \<longrightarrow>
      (\<exists>rings'. geometry' = PolygonGeometry rings' \<and>
         (keepsClosed rings rings' \<or> ringDropped rings rings')))"
proof (intro conjI impI)
  assume a: "updateGeometryPoint (PolygonGeometry rings) offset index mapPos L = Some (Some geometry', offset', L')"
  show "\<exists>rings'. geometry' = PolygonGeometry rings' \<and> keepsClosed rings rings'"
  proof (cases "index < offset")
    case True
    then show ?thesis using a by (auto simp: keepsClosed_refl)
  next
    case False
    then obtain rings' res where
      rec: "updateGeometryPoint_rings rings offset 0 index mapPos L = Some (rings', res)"
      and g: "geometry' = PolygonGeometry rings'"
      using a by (auto split: option.splits)
    have "keepsClosed rings rings'"
      using updateGeometryPoint_rings_keepsClosed [OF rec] False by simp
    then show ?thesis using g by blast
  qed
next
  assume a: "removeGeometryPoint (PolygonGeometry rings) offset index L = Some (Some geometry', offset', L')"
  show "\<exists>rings'. geometry' = PolygonGeometry rings' \<and> (keepsClosed rings rings' \<or> ringDropped rings rings')"
  proof (cases "index < offset")
    case True
    then show ?thesis using a by (auto simp: keepsClosed_refl)
  next
    case False
    then obtain res where
      rec: "removeGeometryPoint_rings [] rings offset 0 index L = Some (Some geometry', res)"
      using a by (auto split: option.splits)
    show ?thesis
      using removeGeometryPoint_rings_keepsClosed [OF rec] False by simp
  qed
qed

theorem ring_closure_invariant_witness:
  "updateGeometryPoint (PolygonGeometry [squareRing]) 0 0 (MapPos 9 9 0)
     (editingLayer VECTOR_ELEMENT_DRAG_RESULT_MODIFY) =
   Some (Some (PolygonGeometry [[MapPos 9 9 0, MapPos 0 1 0, MapPos 1 1 0, MapPos 1 0 0, MapPos 9 9 0]]), 8,
         editingLayer VECTOR_ELEMENT_DRAG_RESULT_MODIFY) \<and>
   keepsClosed [squareRing] [[MapPos 9 9 0, MapPos 0 1 0, MapPos 1 1 0, MapPos 1 0 0, MapPos 9 9 0]] \<and>
   removeGeometryPoint (PolygonGeometry [squareRing]) 0 0 (editingLayer VECTOR_ELEMENT_DRAG_RESULT_MODIFY) =
   Some (Some (PolygonGeometry [[MapPos 0 1 0, MapPos 1 1 0, MapPos 1 0 0, MapPos 0 1 0]]), 8,
         (editingLayer VECTOR_ELEMENT_DRAG_RESULT_MODIFY)
           \<lparr>overlayPoints := [lineHandles ! 2, lineHandles ! 3, lineHandles ! 4]\<rparr>) \<and>
   (keepsClosed [squareRing] [[MapPos 0 1 0, MapPos 1 1 0, MapPos 1 0 0, MapPos 0 1 0]] \<or>
    ringDropped [squareRing] [[MapPos 0 1 0, MapPos 1 1 0, MapPos 1 0 0, MapPos 0 1 0]])"
proof -
  let ?L = "editingLayer VECTOR_ELEMENT_DRAG_RESULT_MODIFY"
  have u: "updateGeometryPoint (PolygonGeometry [squareRing]) 0 0 (MapPos 9 9 0) ?L =
     Some (Some (PolygonGeometry [[MapPos 9 9 0, MapPos 0 1 0, MapPos 1 1 0, MapPos 1 0 0, MapPos 9 9 0]]), 8, ?L)"
    by (simp add: squareRing_def ringPoints_def closedRing_def Let_def vector_set_def setBackToFront_def)
  have r: "removeGeometryPoint (PolygonGeometry [squareRing]) 0 0 ?L =
     Some (Some (PolygonGeometry [[MapPos 0 1 0, MapPos 1 1 0, MapPos 1 0 0, MapPos 0 1 0]]), 8,
           ?L\<lparr>overlayPoints := [lineHandles ! 2, lineHandles ! 3, lineHandles ! 4]\<rparr>)"
    by (simp add: squareRing_def ringPoints_def closedRing_def Let_def vector_erase_def setBackToFront_def
          editingLayer_def lineHandles_def)
  show ?thesis
    using ring_closure_invariant [of "[squareRing]" 0 0 "MapPos 9 9 0" ?L
        "PolygonGeometry [[MapPos 9 9 0, MapPos 0 1 0, MapPos 1 1 0, MapPos 1 0 0, MapPos 9 9 0]]" 8 ?L]
      ring_closure_invariant [of "[squareRing]" 0 0 "MapPos 9 9 0" ?L
        "PolygonGeometry [[MapPos 0 1 0, MapPos 1 1 0, MapPos 1 0 0, MapPos 0 1 0]]" 8
        "?L\<lparr>overlayPoints := [lineHandles ! 2, lineHandles ! 3, lineHandles ! 4]\<rparr>"]
      u r
    by (simp del: updateGeometryPoint.simps removeGeometryPoint.simps)
qed

section \<open>Deleting a vertex of a polygon\<close>

lemma vector_find_first:
  "x \<notin> set xs \<Longrightarrow> vector_find (\<lambda>r. r = x) (xs @ x # ys) = Some (length xs)"
  by (induction xs) auto

lemma vector_erase_middle: "vector_erase (xs @ x # ys) (int (length xs)) = Some (xs @ ys)"
  by (simp add: vector_erase_def)

lemma erase_two:
  assumes "Suc i < length ov"
  shows "vector_erase ov (int i + 1) = Some (take (Suc i) ov @ drop (Suc (Suc i)) ov)"
    and "vector_erase (take (Suc i) ov @ drop (Suc (Suc i)) ov) (int i) = Some (take i ov @ drop (i + 2) ov)"
proof -
  show "vector_erase ov (int i + 1) = Some (take (Suc i) ov @ drop (Suc (Suc i)) ov)"
    using vector_erase_nat [of "Suc i" ov] assms by (simp add: add.commute)
  have "vector_erase (take (Suc i) ov @ drop (Suc (Suc i)) ov) (int i) =
          Some (take i (take (Suc i) ov @ drop (Suc (Suc i)) ov) @
                drop (Suc i) (take (Suc i) ov @ drop (Suc (Suc i)) ov))"
    using assms by (intro vector_erase_nat) simp
  moreover have "take i (take (Suc i) ov @ drop (Suc (Suc i)) ov) @
                drop (Suc i) (take (Suc i) ov @ drop (Suc (Suc i)) ov) = take i ov @ drop (i + 2) ov"
    using assms by (simp add: min_def)
  ultimately show "vector_erase (take (Suc i) ov @ drop (Suc (Suc i)) ov) (int i) = Some (take i ov @ drop (i + 2) ov)"
    by simp
qed

lemma even_div_mod: "(2 * int k) div 2 = int k" "(2 * int k) mod 2 = 0"
  by simp_all

lemma removeGeometryPoint_rings_even:
  assumes "index = int i"
    and "index - (offset + points + sum_list (map ringPoints before)) = 2 * int k"
    and "2 * int k < ringPoints ring"
  shows "(6 < ringPoints ring \<and> Suc i < length (overlayPoints L) \<longrightarrow>
            removeGeometryPoint_rings pre (before @ ring # rest) offset points index L =
              Some (Some (PolygonGeometry (pre @ before @ ringWithout ring k # rest)),
                    offset + points + sum_list (map ringPoints before), ringPoints ring,
                    L\<lparr>overlayPoints := take i (overlayPoints L) @ drop (i + 2) (overlayPoints L)\<rparr>)) \<and>
         (ringPoints ring \<le> 6 \<and> ring \<notin> set (pre @ before) \<and> pre @ before \<noteq> [] \<longrightarrow>
            removeGeometryPoint_rings pre (before @ ring # rest) offset points index L =
              Some (Some (PolygonGeometry (pre @ before @ rest)),
                    offset + points + sum_list (map ringPoints before), ringPoints ring, L)) \<and>
         (ringPoints ring \<le> 6 \<and> pre @ before = [] \<longrightarrow>
            removeGeometryPoint_rings pre (before @ ring # rest) offset points index L =
              Some (None, offset + points + sum_list (map ringPoints before), ringPoints ring, L))"
  using assms(2)
proof (induction before arbitrary: pre offset points)
  case Nil
  have li: "index - (offset + points) = 2 * int k"
    using Nil by simp
  have k: "k < length ring"
    using assms(3) ringPoints_le [of ring] by linarith
  have er: "vector_erase ring (int k) = Some (take k ring @ drop (Suc k) ring)"
    using k by (rule vector_erase_nat)
  have big: "removeGeometryPoint_rings pre ([] @ ring # rest) offset points index L =
              Some (Some (PolygonGeometry (pre @ [] @ ringWithout ring k # rest)),
                    offset + points + sum_list (map ringPoints []), ringPoints ring,
                    L\<lparr>overlayPoints := take i (overlayPoints L) @ drop (i + 2) (overlayPoints L)\<rparr>)"
    if "6 < ringPoints ring" "Suc i < length (overlayPoints L)"
  proof -
    have e1: "vector_erase (overlayPoints L) (index + 1) =
                Some (take (Suc i) (overlayPoints L) @ drop (Suc (Suc i)) (overlayPoints L))"
      using erase_two(1) [OF that(2)] assms(1) by simp
    have e2: "vector_erase (take (Suc i) (overlayPoints L) @ drop (Suc (Suc i)) (overlayPoints L)) index =
                Some (take i (overlayPoints L) @ drop (i + 2) (overlayPoints L))"
      using erase_two(2) [OF that(2)] assms(1) by simp
    have z: "(2 * int k = 0) = (k = 0)" by simp
    show ?thesis
      using that(1) assms(3)
      by (simp add: Let_def li even_div_mod er e1 e2 ringWithout_def z)
  qed
  have drop: "removeGeometryPoint_rings pre ([] @ ring # rest) offset points index L =
              Some (Some (PolygonGeometry (pre @ [] @ rest)),
                    offset + points + sum_list (map ringPoints []), ringPoints ring, L)"
    if "ringPoints ring \<le> 6" "ring \<notin> set (pre @ [])" "pre @ [] \<noteq> []"
    using that assms(3) vector_find_first [of ring pre rest] vector_erase_middle [of pre ring rest]
    by (simp add: Let_def li even_div_mod)
  have null: "removeGeometryPoint_rings pre ([] @ ring # rest) offset points index L =
              Some (None, offset + points + sum_list (map ringPoints []), ringPoints ring, L)"
    if "ringPoints ring \<le> 6" "pre @ [] = []"
    using that assms(3) by (simp add: Let_def li even_div_mod)
  show ?case using big drop null by blast
next
  case (Cons b bs)
  have "0 \<le> sum_list (map ringPoints bs)"
    by (rule sum_ringPoints_nonneg)
  then have miss: "\<not> index - (offset + points) < ringPoints b"
    using Cons.prems by simp
  have step: "removeGeometryPoint_rings pre ((b # bs) @ ring # rest) offset points index L =
        removeGeometryPoint_rings (pre @ [b]) (bs @ ring # rest) (offset + points) (ringPoints b) index L"
    using miss by (simp add: Let_def)
  have "index - (offset + points + ringPoints b + sum_list (map ringPoints bs)) = 2 * int k"
    using Cons.prems by simp
  from Cons.IH [OF this, of "pre @ [b]"] show ?case
    unfolding step by (simp add: add.assoc)
qed

text \<open>
  What \<open>removeGeometryPoint\<close> does at the even local index \<open>2k\<close> of a ring: a ring
  with a point range above 6 loses vertex \<open>k\<close> and the overlay loses the vertex's
  handle and the midpoint after it; a smaller ring is dropped, and the polygon becomes
  null when it is the first ring. The ring is looked up by value (line 704), so the
  second case asks that no earlier ring has the same positions.
\<close>

lemma removeGeometryPoint_polygon_even:
  assumes "index = int i"
    and "index - (offset + sum_list (map ringPoints before)) = 2 * int k"
    and "2 * int k < ringPoints ring"
  shows "(6 < ringPoints ring \<and> Suc i < length (overlayPoints L) \<longrightarrow>
            removeGeometryPoint (PolygonGeometry (before @ ring # rest)) offset index L =
              Some (Some (PolygonGeometry (before @ ringWithout ring k # rest)),
                    offset + sum_list (map ringPoints before) + ringPoints ring,
                    L\<lparr>overlayPoints := take i (overlayPoints L) @ drop (i + 2) (overlayPoints L)\<rparr>)) \<and>
         (ringPoints ring \<le> 6 \<and> ring \<notin> set before \<and> before \<noteq> [] \<longrightarrow>
            removeGeometryPoint (PolygonGeometry (before @ ring # rest)) offset index L =
              Some (Some (PolygonGeometry (before @ rest)),
                    offset + sum_list (map ringPoints before) + ringPoints ring, L)) \<and>
         (ringPoints ring \<le> 6 \<and> before = [] \<longrightarrow>
            removeGeometryPoint (PolygonGeometry (before @ ring # rest)) offset index L =
              Some (None, offset + sum_list (map ringPoints before) + ringPoints ring, L))"
proof -
  have "0 \<le> sum_list (map ringPoints before)" by (rule sum_ringPoints_nonneg)
  then have ge: "\<not> index < offset" using assms(2) by linarith
  have "index - (offset + 0 + sum_list (map ringPoints before)) = 2 * int k"
    using assms(2) by simp
  from removeGeometryPoint_rings_even [OF assms(1) this assms(3), of L "[]" rest]
  show ?thesis
    using ge by simp
qed

text \<open>
  C4 fails on a polygon whose second ring has the positions of its first: deleting a
  vertex of the second ring (ring index 1, flat index 6) finds the first ring at line
  704 and returns null for the whole polygon, where the claim has the second ring
  dropped and the polygon surviving.
\<close>

theorem removeGeometryPoint_duplicate_ring_null:
  "removeGeometryPoint (PolygonGeometry [triangleRing, triangleRing]) 0 6
     (editingLayer VECTOR_ELEMENT_DRAG_RESULT_DELETE) =
   Some (None, 12, editingLayer VECTOR_ELEMENT_DRAG_RESULT_DELETE)"
  by (simp add: triangleRing_def ringPoints_def closedRing_def Let_def)

text \<open>With a second ring of other positions the ring is dropped and the polygon survives.\<close>

lemma removeGeometryPoint_hole_ring_dropped:
  "removeGeometryPoint (PolygonGeometry [triangleRing, holeRing]) 0 6
     (editingLayer VECTOR_ELEMENT_DRAG_RESULT_DELETE) =
   Some (Some (PolygonGeometry [triangleRing]), 12, editingLayer VECTOR_ELEMENT_DRAG_RESULT_DELETE)"
  by (simp add: triangleRing_def holeRing_def ringPoints_def closedRing_def Let_def vector_erase_def)

section \<open>Pointer down: the listener says Stop\<close>

text \<open>
  On a handle hit, \<open>Stop\<close> consumes the event: no drag starts, the geometry and the
  store are untouched and \<open>onDragStart\<close> is the only call.
\<close>

lemma touchDown_handle_stop:
  assumes "mapRenderer L = Some mr" "getProjectionSurface mr = Some ps" "\<not> worldPos1IsNaN ev"
    and "selectedVectorElement L = Some e" "action ev = ACTION_POINTER_1_DOWN"
    and "overlayHits ev = front # others"
    and "vectorEditEventListener L = Some listener"
    and "onDragStart listener (makeDragInfo e VECTOR_ELEMENT_DRAG_MODE_VERTEX ev) = VECTOR_ELEMENT_DRAG_RESULT_STOP"
  shows "onTouchEvent L ev =
           Some (True, L\<lparr>calls := calls L @ [OnDragStart (makeDragInfo e VECTOR_ELEMENT_DRAG_MODE_VERTEX ev)],
                          overlayDragMode := VECTOR_ELEMENT_DRAG_MODE_VERTEX,
                          overlayDragPoint := None\<rparr>)"
  using assms
  by (simp add: onTouchEvent_def getSelectedVectorElement_def touchDown_def callOnDragStart_def Let_def)

text \<open>
  On a hit of the selected element's body, \<open>Stop\<close> leaves the same state behind but
  returns false (line 364).
\<close>

lemma touchDown_body_stop:
  assumes "mapRenderer L = Some mr" "getProjectionSurface mr = Some ps" "\<not> worldPos1IsNaN ev"
    and "selectedVectorElement L = Some e" "action ev = ACTION_POINTER_1_DOWN"
    and "overlayHits ev = []" "elementHits ev = e # others"
    and "vectorEditEventListener L = Some listener"
    and "onDragStart listener (makeDragInfo e VECTOR_ELEMENT_DRAG_MODE_ELEMENT ev) = VECTOR_ELEMENT_DRAG_RESULT_STOP"
  shows "onTouchEvent L ev =
           Some (False, L\<lparr>calls := calls L @ [OnDragStart (makeDragInfo e VECTOR_ELEMENT_DRAG_MODE_ELEMENT ev)],
                           overlayDragMode := VECTOR_ELEMENT_DRAG_MODE_ELEMENT,
                           overlayDragGeometry := None,
                           overlayDragGeometryPos := mapPos1 ev\<rparr>)"
  using assms
  by (simp add: onTouchEvent_def getSelectedVectorElement_def touchDown_def callOnDragStart_def Let_def)

text \<open>
  C5 fails on the code for a whole-shape drag: with element 1 selected, no handle
  under the pointer, the ray hitting element 1 and the listener answering \<open>Stop\<close>,
  the handler returns false, where the claim has the event consumed. No drag starts
  and nothing is modified or deleted, as the claim says.
\<close>

theorem onTouchEvent_body_stop_not_consumed:
  "onTouchEvent (editingLayer VECTOR_ELEMENT_DRAG_RESULT_STOP) bodyDownEvent =
     Some (False,
           (editingLayer VECTOR_ELEMENT_DRAG_RESULT_STOP)
             \<lparr>calls := [OnDragStart (makeDragInfo 1 VECTOR_ELEMENT_DRAG_MODE_ELEMENT bodyDownEvent)],
              overlayDragMode := VECTOR_ELEMENT_DRAG_MODE_ELEMENT,
              overlayDragGeometryPos := MapPos 1 1 0\<rparr>)"
  by (simp add: onTouchEvent_def getSelectedVectorElement_def touchDown_def callOnDragStart_def Let_def
        bodyDownEvent_def example_defs)

section \<open>Pointer down: the listener says Modify\<close>

text \<open>
  The point handed to \<open>updateElementPoint\<close> at line 335 is the drag point read at
  line 306, before line 325 stores the handle that was hit. With no drag point from
  before, \<open>std::find\<close> fails and nothing is updated: the drag is started and
  \<open>onDragStart\<close> is the only call.
\<close>

lemma touchDown_handle_modify_stale:
  assumes "mapRenderer L = Some mr" "getProjectionSurface mr = Some ps" "\<not> worldPos1IsNaN ev"
    and "selectedVectorElement L = Some e" "action ev = ACTION_POINTER_1_DOWN"
    and "overlayHits ev = front # others"
    and "vectorEditEventListener L = Some listener"
    and "onDragStart listener (makeDragInfo e VECTOR_ELEMENT_DRAG_MODE_VERTEX ev) = VECTOR_ELEMENT_DRAG_RESULT_MODIFY"
    and "overlayDragPoint L = None"
  shows "onTouchEvent L ev =
           Some (True, L\<lparr>calls := calls L @ [OnDragStart (makeDragInfo e VECTOR_ELEMENT_DRAG_MODE_VERTEX ev)],
                          overlayDragMode := VECTOR_ELEMENT_DRAG_MODE_VERTEX,
                          overlayDragPoint := Some front,
                          overlayDragStarted := True\<rparr>)"
  using assms
  by (simp add: onTouchEvent_def getSelectedVectorElement_def touchDown_def callOnDragStart_def Let_def
        updateElementPoint_def findOverlayPoint_def)

text \<open>
  C7 fails on the code: a pointer-down on the midpoint handle of the first segment,
  answered with \<open>Modify\<close>, consumes the event and starts the drag, but the line keeps
  its three vertices and five handles and \<open>onElementModify\<close> is not called.
\<close>

theorem onTouchEvent_handle_modify_at_down:
  "onTouchEvent (editingLayer VECTOR_ELEMENT_DRAG_RESULT_MODIFY) handleDownEvent =
     Some (True,
           (editingLayer VECTOR_ELEMENT_DRAG_RESULT_MODIFY)
             \<lparr>calls := [OnDragStart (makeDragInfo 1 VECTOR_ELEMENT_DRAG_MODE_VERTEX handleDownEvent)],
              overlayDragPoint := Some 1,
              overlayDragStarted := True\<rparr>)"
  by (simp add: onTouchEvent_def getSelectedVectorElement_def touchDown_def callOnDragStart_def Let_def
        updateElementPoint_def findOverlayPoint_def handleDownEvent_def bodyDownEvent_def example_defs)

text \<open>The move event that follows inserts the vertex.\<close>

lemma onTouchEvent_handle_modify_at_move:
  "(case onTouchEvent afterHandleDown handleMoveEvent of
      None \<Rightarrow> False
    | Some (consumed, L') \<Rightarrow>
        consumed \<and>
        getGeometry (elementStore L' 1) =
          LineGeometry [MapPos 0 0 0, MapPos 1 1 0, MapPos 2 0 0, MapPos 2 2 0] \<and>
        calls L' =
          [OnDragStart (makeDragInfo 1 VECTOR_ELEMENT_DRAG_MODE_VERTEX handleDownEvent),
           OnDragMove (makeDragInfo 1 VECTOR_ELEMENT_DRAG_MODE_VERTEX handleMoveEvent),
           OnElementModify 1 (Some (LineGeometry [MapPos 0 0 0, MapPos 1 1 0, MapPos 2 0 0, MapPos 2 2 0])),
           Redraw] \<and>
        map ptRef (overlayPoints L') = [0, 6, 1, 5, 2, 3, 4] \<and>
        map ptStyle (overlayPoints L') = [Some 100, Some 101, Some 102, Some 101, Some 100, Some 101, Some 100])"
  by (simp add: onTouchEvent_def getSelectedVectorElement_def touchMove_def callOnDragMove_def Let_def
        updateElementPoint_def findOverlayPoint_def afterHandleDown_def handleMoveEvent_def
        handleDownEvent_def bodyDownEvent_def example_defs
        insertOverlayPoints_def vector_insert_def INT_MAX_def createOverlayPoint_def
        commitElementGeometry_def callOnElementModify_def syncElementOverlayPoints_def redraw_def
        findProjectionSurface_def lineStep_def pushOverlayPoint_def upt_conv_Cons makeDragInfo_def)

section \<open>Pointer down on an element's body\<close>

lemma bstep_refl: "bstep st st"
  by (simp add: bstep_def heapOnly_refl)

lemma bstep_trans: "bstep a b \<Longrightarrow> bstep b c \<Longrightarrow> bstep a c"
  using heapOnly_trans by (auto simp: bstep_def)

lemma bstep_grows: "grows st st' n \<Longrightarrow> bstep st st'"
  by (simp add: grows_def bstep_def)

lemma bstep_fold:
  assumes "\<And>x st. x \<in> set xs \<Longrightarrow> bstep st (f x st)"
  shows "bstep st (fold f xs st)"
  using assms
proof (induction xs arbitrary: st)
  case Nil
  show ?case by (simp add: bstep_refl)
next
  case (Cons x xs)
  have "bstep st (f x st)" using Cons.prems by simp
  moreover have "bstep (f x st) (fold f xs (f x st))" using Cons.IH Cons.prems by simp
  ultimately show ?case using bstep_trans by auto
qed

lemma bstep_createGeometryOverlayPoints: "bstep st (createGeometryOverlayPoints geometry st)"
proof (induction geometry arbitrary: st)
  case (PointGeometry pos)
  show ?case
    using bstep_grows [OF grows_push] by (simp add: bstep_refl split: option.splits)
next
  case (LineGeometry mapPoses)
  have "bstep st (fold (lineStep ps mapPoses) [0..<length mapPoses] st)" for ps
    by (rule bstep_fold) (rule bstep_grows [OF grows_lineStep])
  then show ?case by (simp add: bstep_refl split: option.splits)
next
  case (PolygonGeometry rings)
  have "bstep st (fold (ringOverlayPoints ps) rings st)" for ps
    by (rule bstep_fold) (rule bstep_grows [OF grows_ringOverlayPoints])
  then show ?case by (simp add: bstep_refl split: option.splits)
next
  case (MultiGeometry geometries)
  have "bstep st (fold createGeometryOverlayPoints geometries st)"
    by (rule bstep_fold) (rule MultiGeometry.IH)
  then show ?case by (simp add: bstep_refl split: option.splits)
qed

lemma syncElementOverlayPoints_shape:
  "\<exists>ov h. syncElementOverlayPoints L element = L\<lparr>overlayPoints := ov, heapNext := h\<rparr>"
proof -
  let ?st = "(case element of
              None \<Rightarrow> (0, L, [])
            | Some e \<Rightarrow>
                if isVisible (elementStore L e)
                then createGeometryOverlayPoints (getGeometry (elementStore L e)) (0, L, [])
                else (0, L, []))"
  have "bstep (0, L, []) ?st"
    using bstep_createGeometryOverlayPoints by (auto simp: bstep_refl split: option.splits)
  then obtain h where "fst (snd ?st) = L\<lparr>heapNext := h\<rparr>"
    by (auto simp: bstep_def heapOnly_def)
  then have "syncElementOverlayPoints L element = L\<lparr>overlayPoints := snd (snd ?st), heapNext := h\<rparr>"
    unfolding syncElementOverlayPoints_def by (cases ?st) auto
  then show ?thesis by blast
qed

lemma continues_refl: "continues L L"
  by (simp add: continues_def)

lemma continues_trans: "continues a b \<Longrightarrow> continues b c \<Longrightarrow> continues a c"
  by (auto simp: continues_def)

lemma continues_sync: "continues L (syncElementOverlayPoints L element)"
proof -
  obtain ov h where "syncElementOverlayPoints L element = L\<lparr>overlayPoints := ov, heapNext := h\<rparr>"
    using syncElementOverlayPoints_shape by blast
  then show ?thesis by (simp add: continues_def)
qed

lemma continues_redraw: "continues L (redraw L)"
  by (simp add: continues_def redraw_def)

lemma continues_callOnElementModify: "continues L (callOnElementModify L e g)"
  by (simp add: continues_def callOnElementModify_def split: option.splits)

lemma continues_callOnElementDelete: "continues L (callOnElementDelete L e)"
  by (simp add: continues_def callOnElementDelete_def split: option.splits)

lemma continues_sync_redraw:
  assumes "continues L L1"
  shows "continues L (redraw (syncElementOverlayPoints L1 element))"
proof -
  have "continues L1 (syncElementOverlayPoints L1 element)"
    by (rule continues_sync)
  moreover have "continues (syncElementOverlayPoints L1 element) (redraw (syncElementOverlayPoints L1 element))"
    by (rule continues_redraw)
  ultimately show ?thesis
    using assms continues_trans by blast
qed

lemma continues_updateElementGeometry:
  "continues L (updateElementGeometry L element geometry viewState p0 p1)"
proof (cases element)
  case None
  then show ?thesis by (simp add: updateElementGeometry_def continues_refl)
next
  case (Some e)
  then show ?thesis
    by (simp add: updateElementGeometry_def Let_def continues_sync_redraw continues_callOnElementModify)
qed

lemma continues_removeElement: "continues L (removeElement L element)"
  by (simp add: removeElement_def continues_sync_redraw continues_callOnElementDelete)

lemma touchDownElement_miss:
  "e \<notin> set hits \<Longrightarrow> touchDownElement L ev viewState e hits = Some (False, L)"
  by (induction hits) auto

lemma touchDownElement_continues:
  "\<exists>consumed L'. touchDownElement L ev viewState e hits = Some (consumed, L') \<and>
      (\<exists>cs. calls L' = calls L @ cs) \<and>
      (overlayDragMode L = VECTOR_ELEMENT_DRAG_MODE_ELEMENT \<and> overlayDragGeometryPos L = mapPos1 ev \<longrightarrow>
       overlayDragMode L' = VECTOR_ELEMENT_DRAG_MODE_ELEMENT \<and> overlayDragGeometryPos L' = mapPos1 ev)"
proof (induction hits arbitrary: L)
  case Nil
  show ?case by auto
next
  case (Cons result results)
  show ?case
  proof (cases "result = e")
    case False
    then show ?thesis using Cons.IH [of L] by simp
  next
    case True
    let ?info = "makeDragInfo e VECTOR_ELEMENT_DRAG_MODE_ELEMENT ev"
    obtain dragResult L1 where c: "callOnDragStart L ?info = (dragResult, L1)"
      by (cases "callOnDragStart L ?info")
    have l1: "\<exists>cs. calls L1 = calls L @ cs"
      using c by (auto simp: callOnDragStart_def split: option.splits)
    let ?L2 = "L1\<lparr>overlayDragMode := VECTOR_ELEMENT_DRAG_MODE_ELEMENT,
                   overlayDragGeometry := Some (getGeometry (elementStore L1 e)),
                   overlayDragGeometryPos := mapPos1 ev\<rparr>"
    show ?thesis
    proof (cases dragResult)
      case VECTOR_ELEMENT_DRAG_RESULT_IGNORE
      obtain consumed L' where
        r: "touchDownElement (?L2\<lparr>overlayDragGeometry := None\<rparr>) ev viewState e results = Some (consumed, L')"
        and cs: "\<exists>cs. calls L' = calls (?L2\<lparr>overlayDragGeometry := None\<rparr>) @ cs"
        and m: "overlayDragMode L' = VECTOR_ELEMENT_DRAG_MODE_ELEMENT \<and> overlayDragGeometryPos L' = mapPos1 ev"
        using Cons.IH [of "?L2\<lparr>overlayDragGeometry := None\<rparr>"] by auto
      have "touchDownElement L ev viewState e (result # results) = Some (consumed, L')"
        using True c VECTOR_ELEMENT_DRAG_RESULT_IGNORE r by (simp add: Let_def)
      moreover have "\<exists>cs. calls L' = calls L @ cs"
        using cs l1 by auto
      ultimately show ?thesis using m by blast
    next
      case VECTOR_ELEMENT_DRAG_RESULT_STOP
      then show ?thesis
        using True c l1 by (auto simp: Let_def)
    next
      case VECTOR_ELEMENT_DRAG_RESULT_MODIFY
      let ?L3 = "updateElementGeometry (?L2\<lparr>overlayDragStarted := True\<rparr>) (Some e)
                   (Some (getGeometry (elementStore ?L2 e))) viewState (MapPos 0 0 0) (MapPos 0 0 0)"
      have "continues (?L2\<lparr>overlayDragStarted := True\<rparr>) ?L3"
        by (rule continues_updateElementGeometry)
      then have "(\<exists>cs. calls ?L3 = calls L @ cs) \<and> overlayDragMode ?L3 = VECTOR_ELEMENT_DRAG_MODE_ELEMENT \<and>
                 overlayDragGeometryPos ?L3 = mapPos1 ev"
        using l1 by (auto simp: continues_def)
      moreover have "touchDownElement L ev viewState e (result # results) = Some (True, ?L3)"
        using True c VECTOR_ELEMENT_DRAG_RESULT_MODIFY by (simp add: Let_def)
      ultimately show ?thesis by blast
    next
      case VECTOR_ELEMENT_DRAG_RESULT_DELETE
      let ?L3 = "removeElement ?L2 e"
      have "continues ?L2 ?L3"
        by (rule continues_removeElement)
      then have "(\<exists>cs. calls ?L3 = calls L @ cs) \<and> overlayDragMode ?L3 = VECTOR_ELEMENT_DRAG_MODE_ELEMENT \<and>
                 overlayDragGeometryPos ?L3 = mapPos1 ev"
        using l1 by (auto simp: continues_def)
      moreover have "touchDownElement L ev viewState e (result # results) = Some (True, ?L3)"
        using True c VECTOR_ELEMENT_DRAG_RESULT_DELETE by (simp add: Let_def)
      ultimately show ?thesis by blast
    qed
  qed
qed


lemma touchDownElement_hit:
  "e \<in> set hits \<Longrightarrow>
   \<exists>consumed L'. touchDownElement L ev viewState e hits = Some (consumed, L') \<and>
      elementCandidate L ev e L'"
proof (induction hits)
  case Nil
  then show ?case by simp
next
  case (Cons result results)
  show ?case
  proof (cases "result = e")
    case False
    then show ?thesis using Cons by simp
  next
    case True
    let ?info = "makeDragInfo e VECTOR_ELEMENT_DRAG_MODE_ELEMENT ev"
    obtain dragResult L1 where c: "callOnDragStart L ?info = (dragResult, L1)"
      by (cases "callOnDragStart L ?info")
    have l1: "case vectorEditEventListener L of
                None \<Rightarrow> True
              | Some listener \<Rightarrow> calls L1 = calls L @ [OnDragStart ?info]"
      using c by (auto simp: callOnDragStart_def split: option.splits)
    let ?L2 = "L1\<lparr>overlayDragMode := VECTOR_ELEMENT_DRAG_MODE_ELEMENT,
                   overlayDragGeometry := Some (getGeometry (elementStore L1 e)),
                   overlayDragGeometryPos := mapPos1 ev\<rparr>"
    have fin: "elementCandidate L ev e L'"
      if "\<exists>cs. calls L' = calls L1 @ cs"
        and "overlayDragMode L' = VECTOR_ELEMENT_DRAG_MODE_ELEMENT"
        and "overlayDragGeometryPos L' = mapPos1 ev" for L'
      using that l1 by (auto simp: elementCandidate_def split: option.splits)
    show ?thesis
    proof (cases dragResult)
      case VECTOR_ELEMENT_DRAG_RESULT_IGNORE
      obtain consumed L' where
        r: "touchDownElement (?L2\<lparr>overlayDragGeometry := None\<rparr>) ev viewState e results = Some (consumed, L')"
        and cs: "\<exists>cs. calls L' = calls (?L2\<lparr>overlayDragGeometry := None\<rparr>) @ cs"
        and m: "overlayDragMode L' = VECTOR_ELEMENT_DRAG_MODE_ELEMENT \<and> overlayDragGeometryPos L' = mapPos1 ev"
        using touchDownElement_continues [of "?L2\<lparr>overlayDragGeometry := None\<rparr>" ev viewState e results]
        by auto
      have "touchDownElement L ev viewState e (result # results) = Some (consumed, L')"
        using True c VECTOR_ELEMENT_DRAG_RESULT_IGNORE r by (simp add: Let_def)
      moreover have "elementCandidate L ev e L'"
        using cs m by (intro fin) auto
      ultimately show ?thesis by blast
    next
      case VECTOR_ELEMENT_DRAG_RESULT_STOP
      have "touchDownElement L ev viewState e (result # results) =
              Some (False, ?L2\<lparr>overlayDragGeometry := None\<rparr>)"
        using True c VECTOR_ELEMENT_DRAG_RESULT_STOP by (simp add: Let_def)
      moreover have "elementCandidate L ev e (?L2\<lparr>overlayDragGeometry := None\<rparr>)"
        by (intro fin) auto
      ultimately show ?thesis by blast
    next
      case VECTOR_ELEMENT_DRAG_RESULT_MODIFY
      let ?L3 = "updateElementGeometry (?L2\<lparr>overlayDragStarted := True\<rparr>) (Some e)
                   (Some (getGeometry (elementStore ?L2 e))) viewState (MapPos 0 0 0) (MapPos 0 0 0)"
      have "continues (?L2\<lparr>overlayDragStarted := True\<rparr>) ?L3"
        by (rule continues_updateElementGeometry)
      then have "elementCandidate L ev e ?L3"
        by (intro fin) (auto simp: continues_def)
      moreover have "touchDownElement L ev viewState e (result # results) = Some (True, ?L3)"
        using True c VECTOR_ELEMENT_DRAG_RESULT_MODIFY by (simp add: Let_def)
      ultimately show ?thesis by blast
    next
      case VECTOR_ELEMENT_DRAG_RESULT_DELETE
      let ?L3 = "removeElement ?L2 e"
      have "continues ?L2 ?L3"
        by (rule continues_removeElement)
      then have "elementCandidate L ev e ?L3"
        by (intro fin) (auto simp: continues_def)
      moreover have "touchDownElement L ev viewState e (result # results) = Some (True, ?L3)"
        using True c VECTOR_ELEMENT_DRAG_RESULT_DELETE by (simp add: Let_def)
      ultimately show ?thesis by blast
    qed
  qed
qed

text \<open>
  C6 (as amended). At pointer-down with no handle hit, the hit elements are compared
  with the selected element by address (line 346). If the selected element is not
  among them, nothing happens: the event is not consumed, the layer and the selection
  are unchanged and no callback fires. If it is, the hit is resolved as a candidate
  whole-shape drag.
\<close>

theorem onTouchEvent_body_hit_identity:
  assumes "mapRenderer L = Some mr" "getProjectionSurface mr = Some ps" "\<not> worldPos1IsNaN ev"
    and "selectedVectorElement L = Some e" "action ev = ACTION_POINTER_1_DOWN"
    and "overlayHits ev = []"
  shows "(e \<notin> set (elementHits ev) \<longrightarrow> onTouchEvent L ev = Some (False, L)) \<and>
         (e \<in> set (elementHits ev) \<longrightarrow>
            (\<exists>consumed L'. onTouchEvent L ev = Some (consumed, L') \<and> elementCandidate L ev e L'))"
proof -
  have "onTouchEvent L ev = touchDownElement L ev (getViewState mr) e (elementHits ev)"
    using assms by (simp add: onTouchEvent_def getSelectedVectorElement_def touchDown_def Let_def)
  then show ?thesis
    using touchDownElement_miss [of e "elementHits ev" L ev "getViewState mr"]
      touchDownElement_hit [of e "elementHits ev" L ev "getViewState mr"]
    by simp
qed

theorem onTouchEvent_body_hit_identity_witness:
  "1 \<in> set (elementHits bodyDownEvent) \<and>
   (\<exists>consumed L'. onTouchEvent (editingLayer VECTOR_ELEMENT_DRAG_RESULT_MODIFY) bodyDownEvent = Some (consumed, L') \<and>
      elementCandidate (editingLayer VECTOR_ELEMENT_DRAG_RESULT_MODIFY) bodyDownEvent 1 L') \<and>
   1 \<notin> set (elementHits twinDownEvent) \<and>
   onTouchEvent (editingLayer VECTOR_ELEMENT_DRAG_RESULT_MODIFY) twinDownEvent =
     Some (False, editingLayer VECTOR_ELEMENT_DRAG_RESULT_MODIFY)"
proof -
  let ?L = "editingLayer VECTOR_ELEMENT_DRAG_RESULT_MODIFY"
  have a: "mapRenderer ?L = Some planeRenderer" "getProjectionSurface planeRenderer = Some planeSurface"
    "selectedVectorElement ?L = Some 1"
    by (simp_all add: example_defs)
  have b: "\<not> worldPos1IsNaN bodyDownEvent" "action bodyDownEvent = ACTION_POINTER_1_DOWN"
    "overlayHits bodyDownEvent = []" "1 \<in> set (elementHits bodyDownEvent)"
    by (simp_all add: bodyDownEvent_def)
  have c: "\<not> worldPos1IsNaN twinDownEvent" "action twinDownEvent = ACTION_POINTER_1_DOWN"
    "overlayHits twinDownEvent = []" "1 \<notin> set (elementHits twinDownEvent)"
    by (simp_all add: twinDownEvent_def bodyDownEvent_def)
  show ?thesis
    using onTouchEvent_body_hit_identity [OF a(1,2) b(1) a(3) b(2,3)]
      onTouchEvent_body_hit_identity [OF a(1,2) c(1) a(3) c(2,3)] b(4) c(4)
    by blast
qed

text \<open>
  C6 as stated fails: element 2 has the id of the selected element 1, so
  \<open>IsSameElement\<close> holds of them, but a ray hit on element 2 starts no drag.
\<close>

theorem onTouchEvent_same_id_counterexample:
  "IsSameElement (elementStore twinLayer) (Some 2) (selectedVectorElement twinLayer) \<and>
   onTouchEvent twinLayer twinDownEvent = Some (False, twinLayer)"
  by (simp add: IsSameElement_def twinLayer_def twinDownEvent_def bodyDownEvent_def
        onTouchEvent_def getSelectedVectorElement_def touchDown_def Let_def example_defs)

end
